theory Spec2Isabelle
  imports Complex_Main
begin

section \<open>Indicator primitives (include/indicators.hpp)\<close>

text \<open>
  A C++ \<^verbatim>\<open>double\<close> is modelled as a \<^typ>\<open>real\<close>: sums, products and quotients are the
  exact ones, with no rounding, no infinity and no NaN. A \<^verbatim>\<open>long\<close> is 64 bits wide and is
  modelled as an \<^typ>\<open>int\<close> in the range \<open>in_long\<close>; the one place where the source adds
  two \<^verbatim>\<open>long\<close> values, the running volume sum, wraps around modulo \<open>2^64\<close> into that
  range (\<open>wrap_long\<close>: the two's-complement result; the source language leaves signed
  overflow undefined). Comparisons between a \<^verbatim>\<open>size_t\<close> and an \<^verbatim>\<open>int\<close> convert the
  \<^verbatim>\<open>int\<close> to the unsigned 64-bit type first, which is written out as \<open>size_t_of_int\<close>.
\<close>

type_synonym double = real

datatype IndicatorType = SMA | EMA | VOLATILITY | VWAP

definition size_t_of_int :: "int \<Rightarrow> nat" where
  "size_t_of_int w = nat (w mod 2 ^ 64)"

definition in_long :: "int \<Rightarrow> bool" where
  "in_long x = (- (2 ^ 63) \<le> x \<and> x \<le> 2 ^ 63 - 1)"

definition wrap_long :: "int \<Rightarrow> int" where
  "wrap_long x = (x + 2 ^ 63) mod 2 ^ 64 - 2 ^ 63"

subsection \<open>SMAIndicator\<close>

record SMAIndicator =
  sma_prices :: "double list"
  sma_window_size :: int

definition SMAIndicator_new :: "int \<Rightarrow> SMAIndicator" where
  "SMAIndicator_new window = \<lparr>sma_prices = [], sma_window_size = window\<rparr>"

text \<open>\<^verbatim>\<open>prices.push_back(price); if (prices.size() > window_size) prices.pop_front();\<close>\<close>

definition SMAIndicator_update :: "SMAIndicator \<Rightarrow> double \<Rightarrow> SMAIndicator" where
  "SMAIndicator_update s price =
     (let pushed = sma_prices s @ [price] in
      if size_t_of_int (sma_window_size s) < length pushed
      then s\<lparr>sma_prices := tl pushed\<rparr>
      else s\<lparr>sma_prices := pushed\<rparr>)"

text \<open>\<^verbatim>\<open>std::accumulate(begin, end, 0.0)\<close> is a left fold of \<open>+\<close> from \<open>0\<close>.\<close>

definition accumulate :: "double list \<Rightarrow> double" where
  "accumulate xs = foldl (+) 0 xs"

definition SMAIndicator_get_value :: "SMAIndicator \<Rightarrow> double" where
  "SMAIndicator_get_value s =
     (if sma_prices s = [] then 0
      else accumulate (sma_prices s) / real (length (sma_prices s)))"

subsection \<open>EMAIndicator\<close>

record EMAIndicator =
  current_ema :: double
  alpha :: double
  first_price :: bool

definition EMAIndicator_new :: "double \<Rightarrow> EMAIndicator" where
  "EMAIndicator_new smoothing_factor =
     \<lparr>current_ema = 0, alpha = smoothing_factor, first_price = True\<rparr>"

definition EMAIndicator_update :: "EMAIndicator \<Rightarrow> double \<Rightarrow> EMAIndicator" where
  "EMAIndicator_update e price =
     (if first_price e then e\<lparr>current_ema := price, first_price := False\<rparr>
      else e\<lparr>current_ema := alpha e * price + (1 - alpha e) * current_ema e\<rparr>)"

definition EMAIndicator_get_value :: "EMAIndicator \<Rightarrow> double" where
  "EMAIndicator_get_value e = current_ema e"

subsection \<open>VolatilityIndicator\<close>

record VolatilityIndicator =
  vol_returns :: "double list"
  vol_window_size :: nat

definition VolatilityIndicator_new :: "nat \<Rightarrow> VolatilityIndicator" where
  "VolatilityIndicator_new window = \<lparr>vol_returns = [], vol_window_size = window\<rparr>"

definition VolatilityIndicator_update :: "VolatilityIndicator \<Rightarrow> double \<Rightarrow> VolatilityIndicator" where
  "VolatilityIndicator_update v return_val =
     (let pushed = vol_returns v @ [return_val] in
      if vol_window_size v < length pushed
      then v\<lparr>vol_returns := tl pushed\<rparr>
      else v\<lparr>vol_returns := pushed\<rparr>)"

text \<open>
  The loop \<^verbatim>\<open>for (ret : returns) { diff = ret - mean; sum_squared_diffs += diff * diff; }\<close>
  is a left fold over the deque, front to back.
\<close>

definition sum_squared_diffs :: "double \<Rightarrow> double list \<Rightarrow> double" where
  "sum_squared_diffs mean rs = foldl (\<lambda>acc ret. acc + (ret - mean) * (ret - mean)) 0 rs"

definition VolatilityIndicator_get_value :: "VolatilityIndicator \<Rightarrow> double" where
  "VolatilityIndicator_get_value v =
     (if length (vol_returns v) < 2 then 0
      else
        let n = length (vol_returns v);
            mean = accumulate (vol_returns v) / real n;
            variance = sum_squared_diffs mean (vol_returns v) / real (n - 1)
        in sqrt variance)"

subsection \<open>VWAPIndicator\<close>

record VWAPIndicator =
  price_volume_sum :: double
  volume_sum :: int
  current_date :: string

definition VWAPIndicator_new :: VWAPIndicator where
  "VWAPIndicator_new = \<lparr>price_volume_sum = 0, volume_sum = 0, current_date = []\<rparr>"

text \<open>
  \<^verbatim>\<open>timestamp.substr(0, 10)\<close> is the first ten characters, or the whole string when it is
  shorter; position 0 is never out of range, so the call cannot throw. \<^verbatim>\<open>volume_sum\<close> is a
  \<^verbatim>\<open>long\<close>: \<^verbatim>\<open>volume_sum += volume\<close> is the 64-bit sum.
\<close>

definition VWAPIndicator_update :: "VWAPIndicator \<Rightarrow> double \<Rightarrow> int \<Rightarrow> string \<Rightarrow> VWAPIndicator" where
  "VWAPIndicator_update w price volume timestamp =
     (let new_date = take 10 timestamp;
          w1 = (if current_date w \<noteq> new_date
                then w\<lparr>price_volume_sum := 0, volume_sum := 0, current_date := new_date\<rparr>
                else w)
      in w1\<lparr>price_volume_sum := price_volume_sum w1 + price * real_of_int volume,
             volume_sum := wrap_long (volume_sum w1 + volume)\<rparr>)"

definition VWAPIndicator_get_value :: "VWAPIndicator \<Rightarrow> double" where
  "VWAPIndicator_get_value w =
     (if volume_sum w = 0 then 0 else price_volume_sum w / real_of_int (volume_sum w))"

subsection \<open>Series\<close>

record Series =
  sma :: SMAIndicator
  ema :: EMAIndicator
  volatility :: VolatilityIndicator
  vwap :: VWAPIndicator
  last_price :: double

definition Series_new :: "int \<Rightarrow> double \<Rightarrow> int \<Rightarrow> Series" where
  "Series_new sma_window ema_alpha vol_window =
     \<lparr>sma = SMAIndicator_new sma_window,
      ema = EMAIndicator_new ema_alpha,
      volatility = VolatilityIndicator_new (size_t_of_int vol_window),
      vwap = VWAPIndicator_new,
      last_price = 0\<rparr>"

text \<open>
  \<open>Series_update_divs\<close> is \<^verbatim>\<open>Series::update\<close> returning, beside the new state, the list
  of divisors of the floating-point divisions the call evaluated: none on the early
  return, \<open>last_price\<close> for \<^verbatim>\<open>price / last_price\<close> otherwise. \<open>Series_update\<close> is the
  state alone.
\<close>

definition Series_update_divs :: "Series \<Rightarrow> double \<Rightarrow> int \<Rightarrow> string \<Rightarrow> Series \<times> double list" where
  "Series_update_divs s price volume ts =
     (if last_price s = 0 then (s\<lparr>last_price := price\<rparr>, [])
      else
        let return_value = (price / last_price s) - 1 in
        (s\<lparr>sma := SMAIndicator_update (sma s) price,
           ema := EMAIndicator_update (ema s) price,
           volatility := VolatilityIndicator_update (volatility s) return_value,
           vwap := VWAPIndicator_update (vwap s) price volume ts,
           last_price := price\<rparr>,
         [last_price s]))"

definition Series_update :: "Series \<Rightarrow> double \<Rightarrow> int \<Rightarrow> string \<Rightarrow> Series" where
  "Series_update s price volume ts = fst (Series_update_divs s price volume ts)"

text \<open>
  The \<^verbatim>\<open>default:\<close> branch of the switch throws \<^verbatim>\<open>std::invalid_argument\<close>; the enumeration
  is closed, so no value of \<^typ>\<open>IndicatorType\<close> reaches it.
\<close>

fun get_indicator :: "Series \<Rightarrow> IndicatorType \<Rightarrow> double" where
  "get_indicator s SMA = SMAIndicator_get_value (sma s)"
| "get_indicator s EMA = EMAIndicator_get_value (ema s)"
| "get_indicator s VOLATILITY = VolatilityIndicator_get_value (volatility s)"
| "get_indicator s VWAP = VWAPIndicator_get_value (vwap s)"

section \<open>Library functions the parser calls\<close>

text \<open>
  \<^verbatim>\<open>strtod\<close>, \<^verbatim>\<open>std::from_chars\<close>, \<^verbatim>\<open>std::stod\<close> and \<^verbatim>\<open>std::stol\<close> belong to the C and C++
  standard libraries, not to the repository, so the parsers take them as a parameter
  \<open>L\<close>. \<open>strtod L s\<close> is the value read from the C string \<open>s\<close> and the number of
  characters consumed (\<open>0\<close> when no conversion is performed: the end pointer equals the
  start pointer). \<open>from_chars L s\<close> reads from the range \<open>s\<close>: \<open>Inl ec\<close> when the error
  code is set, \<open>Inr (value, n)\<close> when it is \<^verbatim>\<open>std::errc{}\<close>, with \<open>n\<close> characters consumed.
  \<open>stod L s\<close> and \<open>stol L s\<close> are \<open>None\<close> when the call throws (\<^verbatim>\<open>std::invalid_argument\<close>
  or \<^verbatim>\<open>std::out_of_range\<close>) and the converted value otherwise.
\<close>

datatype errc = invalid_argument | result_out_of_range

record stdlib =
  strtod :: "string \<Rightarrow> double \<times> nat"
  from_chars :: "string \<Rightarrow> errc + int \<times> nat"
  stod :: "string \<Rightarrow> double option"
  stol :: "string \<Rightarrow> int option"

text \<open>
  A concrete library for evaluation, written from the standards' descriptions.
  \<open>from_chars_long\<close>: base 10, no leading whitespace, an optional minus sign (no plus
  sign), one or more digits; \<^verbatim>\<open>long\<close> is 64 bits wide. \<open>strtod_C\<close>: the decimal forms of
  \<^verbatim>\<open>strtod\<close> in the "C" locale (leading whitespace, an optional sign, digits with an
  optional point, an optional exponent); the hexadecimal, \<^verbatim>\<open>INF\<close> and \<^verbatim>\<open>NAN\<close> forms are
  not modelled. \<open>stod_C\<close> is \<open>strtod_C\<close> throwing when nothing is converted (the range
  error of \<^verbatim>\<open>std::stod\<close> has no counterpart on \<^typ>\<open>real\<close>). \<open>stol_C\<close> is \<^verbatim>\<open>strtol\<close> in
  base 10 (leading whitespace, an optional sign, one or more digits), throwing when
  nothing is converted or the value is outside the 64-bit range.
\<close>

definition isspace :: "char \<Rightarrow> bool" where
  "isspace c = (c \<in> set [CHR '' '', CHR 0x09, CHR 0x0A, CHR 0x0B, CHR 0x0C, CHR 0x0D])"

definition isdigit :: "char \<Rightarrow> bool" where
  "isdigit c = (c \<in> set ''0123456789'')"

definition digit_value :: "char \<Rightarrow> int" where
  "digit_value c = of_char c - 48"

definition decimal :: "string \<Rightarrow> int" where
  "decimal ds = foldl (\<lambda>acc c. 10 * acc + digit_value c) 0 ds"

definition from_chars_long :: "string \<Rightarrow> errc + int \<times> nat" where
  "from_chars_long s =
     (let neg = (s \<noteq> [] \<and> hd s = CHR ''-'');
          body = (if neg then tl s else s);
          ds = takeWhile isdigit body;
          v = (if neg then - decimal ds else decimal ds)
      in if ds = [] then Inl invalid_argument
         else if v < - (2 ^ 63) \<or> 2 ^ 63 - 1 < v then Inl result_out_of_range
         else Inr (v, (if neg then 1 else 0) + length ds))"

definition strtod_sign :: "string \<Rightarrow> bool \<times> nat \<times> string" where
  "strtod_sign s =
     (case s of
        [] \<Rightarrow> (False, 0, [])
      | c # r \<Rightarrow>
          if c = CHR ''-'' then (True, 1, r)
          else if c = CHR ''+'' then (False, 1, r)
          else (False, 0, s))"

definition strtod_exponent :: "string \<Rightarrow> int \<times> nat" where
  "strtod_exponent s =
     (case s of
        [] \<Rightarrow> (0, 0)
      | c # r \<Rightarrow>
          if c = CHR ''e'' \<or> c = CHR ''E'' then
            (case strtod_sign r of
               (eneg, eslen, r1) \<Rightarrow>
                 let ds = takeWhile isdigit r1 in
                 if ds = [] then (0, 0)
                 else ((if eneg then - decimal ds else decimal ds),
                       1 + eslen + length ds))
          else (0, 0))"

definition strtod_C :: "string \<Rightarrow> double \<times> nat" where
  "strtod_C s =
     (let ws = takeWhile isspace s in
      case strtod_sign (dropWhile isspace s) of
        (neg, slen, s2) \<Rightarrow>
          let ip = takeWhile isdigit s2;
              s3 = dropWhile isdigit s2;
              dot = (s3 \<noteq> [] \<and> hd s3 = CHR ''.'');
              fp = (if dot then takeWhile isdigit (tl s3) else []);
              s4 = (if dot then dropWhile isdigit (tl s3) else s3)
          in if ip = [] \<and> fp = [] then (0, 0)
             else
               (case strtod_exponent s4 of
                  (ex, elen) \<Rightarrow>
                    let m = real_of_int (decimal (ip @ fp)) / 10 ^ length fp;
                        v = (if 0 \<le> ex then m * 10 ^ nat ex else m / 10 ^ nat (- ex))
                    in ((if neg then - v else v),
                        length ws + slen + length ip + (if dot then 1 else 0)
                          + length fp + elen)))"

definition stod_C :: "string \<Rightarrow> double option" where
  "stod_C s = (case strtod_C s of (v, used) \<Rightarrow> if used = 0 then None else Some v)"

definition stol_C :: "string \<Rightarrow> int option" where
  "stol_C s =
     (case strtod_sign (dropWhile isspace s) of
        (neg, slen, r) \<Rightarrow>
          let ds = takeWhile isdigit r;
              v = (if neg then - decimal ds else decimal ds)
          in if ds = [] then None
             else if v < - (2 ^ 63) \<or> 2 ^ 63 - 1 < v then None
             else Some v)"

definition libc :: stdlib where
  "libc = \<lparr>strtod = strtod_C, from_chars = from_chars_long, stod = stod_C, stol = stol_C\<rparr>"

section \<open>Tokenizer and row parser (src/analyzer.cpp, include/csv.hpp)\<close>

record CLIConfig =
  sma_window :: int
  ema_span :: int
  vol_window :: int
  output_sma :: bool
  output_ema :: bool
  output_vol :: bool
  output_vwap :: bool
  filter_symbol :: string
  input_filename :: string
  vwap_reset_period :: string

text \<open>The defaults of the struct's member initialisers.\<close>

definition CLIConfig_default :: CLIConfig where
  "CLIConfig_default =
     \<lparr>sma_window = 20, ema_span = 50, vol_window = 30,
      output_sma = False, output_ema = False, output_vol = False, output_vwap = False,
      filter_symbol = [], input_filename = [], vwap_reset_period = []\<rparr>"

record ParsedRow =
  timestamp :: string
  symbol :: string
  price :: double
  volume :: int
  is_valid :: bool

definition ParsedRow_invalid :: ParsedRow where
  "ParsedRow_invalid = \<lparr>timestamp = [], symbol = [], price = 0, volume = 0, is_valid = False\<rparr>"

text \<open>
  A \<^verbatim>\<open>FieldRange\<close> is a pointer into the line and a length. The pointer is modelled as
  an offset from \<^verbatim>\<open>line.data()\<close>; \<open>None\<close> is the null pointer of a zero-initialised
  entry.
\<close>

record FieldRange =
  fr_start :: "nat option"
  fr_length :: nat

definition FieldRange_zero :: FieldRange where
  "FieldRange_zero = \<lparr>fr_start = None, fr_length = 0\<rparr>"

definition span_to_alpha :: "int \<Rightarrow> double" where
  "span_to_alpha ema_span_arg = 2 / (real_of_int ema_span_arg + 1)"

text \<open>
  The loop of \<^verbatim>\<open>split_csv_line\<close>, with its variables \<open>fields\<close> (here \<open>field_arr\<close>), \<open>field_index\<close>, \<open>start\<close>
  and \<open>i\<close> as arguments. \<open>start \<le> i\<close> holds whenever a field is recorded, so
  \<open>i - start\<close> does not wrap.
\<close>

function split_loop :: "string \<Rightarrow> FieldRange list \<Rightarrow> nat \<Rightarrow> nat \<Rightarrow> nat \<Rightarrow> FieldRange list" where
  "split_loop line field_arr field_index start i =
     (if i \<le> length line \<and> field_index < 4 then
        (if i = length line \<or> line ! i = CHR '','' then
           split_loop line
             (field_arr[field_index := \<lparr>fr_start = Some start, fr_length = i - start\<rparr>])
             (field_index + 1) (i + 1) (i + 1)
         else split_loop line field_arr field_index start (i + 1))
      else field_arr)"
  by pat_completeness auto
termination
  by (relation "measure (\<lambda>(line, field_arr, field_index, start, i). Suc (length line) - i)") auto

definition split_csv_line :: "string \<Rightarrow> FieldRange list" where
  "split_csv_line line = split_loop line (replicate 4 FieldRange_zero) 0 0 0"

text \<open>
  \<^verbatim>\<open>std::string(f.start, f.length)\<close>, and the range \<^verbatim>\<open>[f.start, f.end())\<close> handed to
  \<^verbatim>\<open>from_chars\<close>. A zero-initialised entry has length 0 and gives the empty string.
\<close>

definition field_string :: "string \<Rightarrow> FieldRange \<Rightarrow> string" where
  "field_string line f =
     (case fr_start f of None \<Rightarrow> [] | Some off \<Rightarrow> take (fr_length f) (drop off line))"

text \<open>
  The C string \<^verbatim>\<open>strtod\<close> reads at offset \<open>off\<close> of the line's buffer: the characters
  up to the terminating NUL (or an earlier NUL byte of the line).
\<close>

definition c_string_at :: "string \<Rightarrow> nat \<Rightarrow> string" where
  "c_string_at line off = takeWhile (\<lambda>c. c \<noteq> CHR 0x00) (drop off line)"

text \<open>
  \<^verbatim>\<open>strtod\<close> on the null pointer of a zero-initialised field has no defined behaviour;
  the model stops there with a fault.
\<close>

datatype fault = StrtodNullPointer

definition parse_line :: "stdlib \<Rightarrow> string \<Rightarrow> fault + ParsedRow" where
  "parse_line L line =
     (let field_arr = split_csv_line line in
      if length field_arr \<noteq> 4 then Inr ParsedRow_invalid
      else
        let timestamp' = field_string line (field_arr ! 0);
            symbol' = field_string line (field_arr ! 1)
        in case fr_start (field_arr ! 2) of
             None \<Rightarrow> Inl StrtodNullPointer
           | Some off \<Rightarrow>
               (case strtod L (c_string_at line off) of
                  (price', used) \<Rightarrow>
                    if used = 0 \<or> used \<noteq> fr_length (field_arr ! 2) then Inr ParsedRow_invalid
                    else
                      (case from_chars L (field_string line (field_arr ! 3)) of
                         Inl ec \<Rightarrow> Inr ParsedRow_invalid
                       | Inr (volume', n) \<Rightarrow>
                           Inr \<lparr>timestamp = timestamp', symbol = symbol', price = price',
                                volume = volume', is_valid = True\<rparr>)))"

text \<open>
  The \<^verbatim>\<open>parse_line\<close> of the repository's top-level \<^verbatim>\<open>analyzer.cpp\<close>: it copies the price
  and volume fields into strings and converts them with \<^verbatim>\<open>std::stod\<close> and \<^verbatim>\<open>std::stol\<close>
  inside a \<^verbatim>\<open>try\<close> block; any exception gives the invalid row.
\<close>

definition parse_line_toplevel :: "stdlib \<Rightarrow> string \<Rightarrow> ParsedRow" where
  "parse_line_toplevel L line =
     (let field_arr = split_csv_line line in
      if length field_arr \<noteq> 4 then ParsedRow_invalid
      else
        let timestamp' = field_string line (field_arr ! 0);
            symbol' = field_string line (field_arr ! 1);
            price_str = field_string line (field_arr ! 2);
            volume_str = field_string line (field_arr ! 3)
        in case stod L price_str of
             None \<Rightarrow> ParsedRow_invalid
           | Some price' \<Rightarrow>
               (case stol L volume_str of
                  None \<Rightarrow> ParsedRow_invalid
                | Some volume' \<Rightarrow>
                    \<lparr>timestamp = timestamp', symbol = symbol', price = price',
                     volume = volume', is_valid = True\<rparr>))"

section \<open>Series registry and stream driver (src/analyzer.cpp)\<close>

type_synonym registry = "string \<rightharpoonup> Series"

definition get_or_create_series :: "CLIConfig \<Rightarrow> registry \<Rightarrow> string \<Rightarrow> registry \<times> Series" where
  "get_or_create_series config symbol_data symbol_key =
     (case symbol_data symbol_key of
        None \<Rightarrow>
          (let ema_alpha = span_to_alpha (ema_span config);
               fresh = Series_new (sma_window config) ema_alpha (vol_window config)
           in (symbol_data(symbol_key \<mapsto> fresh), fresh))
      | Some s \<Rightarrow> (symbol_data, s))"

text \<open>
  An output line before rendering: one cell per comma-separated column, holding the
  value the source passes to \<^verbatim>\<open>std::to_string\<close> (or the string itself).
\<close>

datatype cell = Str string | Dbl double | Lng int

definition print_csv_header :: "CLIConfig \<Rightarrow> string" where
  "print_csv_header config =
     ''timestamp,symbol,price,volume''
       @ (if output_sma config then '',sma'' else [])
       @ (if output_ema config then '',ema'' else [])
       @ (if output_vol config then '',volatility'' else [])
       @ (if output_vwap config then '',vwap'' else [])"

definition print_csv_row :: "CLIConfig \<Rightarrow> ParsedRow \<Rightarrow> Series \<Rightarrow> cell list" where
  "print_csv_row config row series =
     [Str (timestamp row), Str (symbol row), Dbl (price row), Lng (volume row)]
       @ (if output_sma config then [Dbl (get_indicator series SMA)] else [])
       @ (if output_ema config then [Dbl (get_indicator series EMA)] else [])
       @ (if output_vol config then [Dbl (get_indicator series VOLATILITY)] else [])
       @ (if output_vwap config then [Dbl (get_indicator series VWAP)] else [])"

text \<open>
  The \<^verbatim>\<open>print_csv_row\<close> of the repository's top-level \<^verbatim>\<open>analyzer.cpp\<close>, which streams the
  cells to \<^verbatim>\<open>std::cout\<close>. Its second indicator column asks for \<^verbatim>\<open>IndicatorType::SMA\<close>.
\<close>

definition print_csv_row_toplevel :: "CLIConfig \<Rightarrow> ParsedRow \<Rightarrow> Series \<Rightarrow> cell list" where
  "print_csv_row_toplevel config row series =
     [Str (timestamp row), Str (symbol row), Dbl (price row), Lng (volume row)]
       @ (if output_sma config then [Dbl (get_indicator series SMA)] else [])
       @ (if output_ema config then [Dbl (get_indicator series SMA)] else [])
       @ (if output_vol config then [Dbl (get_indicator series VOLATILITY)] else [])
       @ (if output_vwap config then [Dbl (get_indicator series VWAP)] else [])"

text \<open>
  One iteration of the \<^verbatim>\<open>while (std::getline(file, line))\<close> loop of \<^verbatim>\<open>process_file\<close>: the
  registry after the iteration and the row printed, if any.
\<close>

definition process_line :: "stdlib \<Rightarrow> CLIConfig \<Rightarrow> registry \<Rightarrow> string \<Rightarrow> fault + registry \<times> cell list option" where
  "process_line L config symbol_data line =
     (if line = [] then Inr (symbol_data, None)
      else
        case parse_line L line of
          Inl f \<Rightarrow> Inl f
        | Inr parsed_row \<Rightarrow>
            if \<not> is_valid parsed_row then Inr (symbol_data, None)
            else if filter_symbol config \<noteq> [] \<and> symbol parsed_row \<noteq> filter_symbol config
            then Inr (symbol_data, None)
            else
              (case get_or_create_series config symbol_data (symbol parsed_row) of
                 (symbol_data', series) \<Rightarrow>
                   let series' = Series_update series (price parsed_row) (volume parsed_row)
                                   (timestamp parsed_row)
                   in Inr (symbol_data'(symbol parsed_row \<mapsto> series'),
                           Some (print_csv_row config parsed_row series'))))"

text \<open>
  The loop over the lines \<^verbatim>\<open>std::getline\<close> delivers: the final registry and the rows
  printed, in order. Opening the file and writing the header are outside the loop.
\<close>

fun process_lines :: "stdlib \<Rightarrow> CLIConfig \<Rightarrow> registry \<Rightarrow> string list \<Rightarrow> fault + registry \<times> cell list list" where
  "process_lines L config symbol_data [] = Inr (symbol_data, [])"
| "process_lines L config symbol_data (line # rest) =
     (case process_line L config symbol_data line of
        Inl f \<Rightarrow> Inl f
      | Inr (symbol_data', out) \<Rightarrow>
          (case process_lines L config symbol_data' rest of
             Inl f \<Rightarrow> Inl f
           | Inr (symbol_data'', rows) \<Rightarrow>
               Inr (symbol_data'', (case out of None \<Rightarrow> [] | Some r \<Rightarrow> [r]) @ rows)))"

definition process_file :: "stdlib \<Rightarrow> CLIConfig \<Rightarrow> string list \<Rightarrow> fault + string \<times> cell list list" where
  "process_file L config file_lines =
     (case process_lines L config Map.empty file_lines of
        Inl f \<Rightarrow> Inl f
      | Inr (symbol_data, rows) \<Rightarrow> Inr (print_csv_header config, rows))"

section \<open>Notions used in the statements\<close>

text \<open>
  Feeding a list of inputs to a freshly constructed indicator, one \<^verbatim>\<open>update\<close> call per
  element, first element first.
\<close>

definition SMAIndicator_feed :: "int \<Rightarrow> double list \<Rightarrow> SMAIndicator" where
  "SMAIndicator_feed N ps = foldl SMAIndicator_update (SMAIndicator_new N) ps"

definition VolatilityIndicator_feed :: "nat \<Rightarrow> double list \<Rightarrow> VolatilityIndicator" where
  "VolatilityIndicator_feed N rs = foldl VolatilityIndicator_update (VolatilityIndicator_new N) rs"

definition VWAPIndicator_feed :: "(double \<times> int \<times> string) list \<Rightarrow> VWAPIndicator" where
  "VWAPIndicator_feed trades =
     foldl (\<lambda>w (p, v, ts). VWAPIndicator_update w p v ts) VWAPIndicator_new trades"

text \<open>
  A sequence of \<^verbatim>\<open>Series::update\<close> calls: the final state and the divisors of all the
  divisions evaluated on the way, in order.
\<close>

fun Series_run_divs :: "Series \<Rightarrow> (double \<times> int \<times> string) list \<Rightarrow> Series \<times> double list" where
  "Series_run_divs s [] = (s, [])"
| "Series_run_divs s ((p, v, ts) # rest) =
     (case Series_update_divs s p v ts of
        (s', ds) \<Rightarrow> (case Series_run_divs s' rest of (s'', ds') \<Rightarrow> (s'', ds @ ds')))"

text \<open>The specification's arithmetic mean and sample standard deviation.\<close>

definition arithmetic_mean :: "double list \<Rightarrow> double" where
  "arithmetic_mean xs = sum_list xs / real (length xs)"

definition sample_stddev :: "double list \<Rightarrow> double" where
  "sample_stddev rs =
     sqrt (sum_list (map (\<lambda>r. (r - arithmetic_mean rs)\<^sup>2) rs) / (real (length rs) - 1))"

text \<open>
  The trades of the running session: the longest run of trades at the end of the list
  whose timestamps share the ten-character prefix of the last trade's timestamp.
\<close>

definition current_session :: "(double \<times> int \<times> string) list \<Rightarrow> (double \<times> int \<times> string) list" where
  "current_session trades =
     rev (takeWhile (\<lambda>(p, v, ts). take 10 ts = take 10 (snd (snd (last trades)))) (rev trades))"

text \<open>
  The layout of a list of field spans. \<open>next_offset fs\<close> is defined when the first span
  starts at offset 0 and every further span starts one character (the delimiter) after
  the end of the span before it; it is then the offset one past the delimiter position
  that follows the last span. Spans laid out this way are in order and do not overlap.
  \<open>spans_cover line fs\<close>: the spans are laid out this way and the last one ends at the
  end of the line, so the spans and the delimiter positions between them cover the line.
\<close>

definition next_offset :: "FieldRange list \<Rightarrow> nat option" where
  "next_offset fs =
     foldl (\<lambda>acc f. case acc of
                       None \<Rightarrow> None
                     | Some off \<Rightarrow>
                         if fr_start f = Some off then Some (off + fr_length f + 1) else None)
       (Some 0) fs"

definition spans_cover :: "string \<Rightarrow> FieldRange list \<Rightarrow> bool" where
  "spans_cover line fs = (next_offset fs = Some (length line + 1))"

text \<open>
  A span is comma-delimited in a line when it lies inside the line, holds no comma, and
  ends at the end of the line or at a comma (the character just after it).
\<close>

definition span_delimited :: "string \<Rightarrow> FieldRange \<Rightarrow> bool" where
  "span_delimited line f =
     (case fr_start f of
        None \<Rightarrow> False
      | Some a \<Rightarrow>
          a + fr_length f \<le> length line
          \<and> CHR '','' \<notin> set (field_string line f)
          \<and> (a + fr_length f = length line \<or> line ! (a + fr_length f) = CHR '',''))"

text \<open>
  The loop of \<^verbatim>\<open>split_csv_line\<close> once more, by recursion on the characters not yet
  read (the suffix of the line from index \<open>i\<close>); \<open>split_loop_scan\<close> below shows that it
  computes what \<open>split_loop\<close> computes.
\<close>

fun split_scan :: "string \<Rightarrow> FieldRange list \<Rightarrow> nat \<Rightarrow> nat \<Rightarrow> nat \<Rightarrow> FieldRange list" where
  "split_scan [] field_arr field_index start i =
     (if field_index < 4
      then field_arr[field_index := \<lparr>fr_start = Some start, fr_length = i - start\<rparr>]
      else field_arr)"
| "split_scan (c # cs) field_arr field_index start i =
     (if field_index < 4 then
        (if c = CHR '','' then
           split_scan cs
             (field_arr[field_index := \<lparr>fr_start = Some start, fr_length = i - start\<rparr>])
             (field_index + 1) (i + 1) (i + 1)
         else split_scan cs field_arr field_index start (i + 1))
      else field_arr)"

section \<open>Verified properties\<close>

subsection \<open>Sliding windows and sums\<close>

lemma foldl_plus_sum_list: "foldl (+) a xs = a + sum_list (xs :: real list)"
  by (induction xs arbitrary: a) simp_all

lemma accumulate_sum_list: "accumulate xs = sum_list xs"
  by (simp add: accumulate_def foldl_plus_sum_list)

text \<open>Pushing at the back and popping the front when the window overflows keeps the last \<open>n\<close>.\<close>

lemma window_slide:
  "(if n < length (drop (length xs - n) xs @ [x])
    then tl (drop (length xs - n) xs @ [x])
    else drop (length xs - n) xs @ [x]) = drop (length (xs @ [x]) - n) (xs @ [x])"
proof (cases "n \<le> length xs")
  case True
  show ?thesis
  proof (cases "n = 0")
    case True
    then show ?thesis by simp
  next
    case False
    with True have ne: "drop (length xs - n) xs \<noteq> []" by simp
    have "tl (drop (length xs - n) xs @ [x]) = tl (drop (length xs - n) xs) @ [x]"
      using ne by simp
    also have "tl (drop (length xs - n) xs) = drop (Suc (length xs - n)) xs"
      by (simp add: drop_Suc tl_drop)
    finally show ?thesis using True False by (simp add: Suc_diff_le)
  qed
next
  case False
  then show ?thesis by simp
qed

subsection \<open>SMA\<close>

lemma sma_feed_window: "sma_window_size (SMAIndicator_feed N ps) = N"
  unfolding SMAIndicator_feed_def
  by (induction ps rule: rev_induct)
    (simp_all add: SMAIndicator_new_def SMAIndicator_update_def Let_def)

lemma sma_update_prices:
  "sma_prices (SMAIndicator_update s p) =
     (if size_t_of_int (sma_window_size s) < length (sma_prices s @ [p])
      then tl (sma_prices s @ [p]) else sma_prices s @ [p])"
  by (simp add: SMAIndicator_update_def Let_def)

lemma sma_feed_prices:
  "sma_prices (SMAIndicator_feed N ps) = drop (length ps - size_t_of_int N) ps"
proof (induction ps rule: rev_induct)
  case Nil
  then show ?case by (simp add: SMAIndicator_feed_def SMAIndicator_new_def)
next
  case (snoc p ps)
  have step: "SMAIndicator_feed N (ps @ [p]) = SMAIndicator_update (SMAIndicator_feed N ps) p"
    by (simp add: SMAIndicator_feed_def)
  have "sma_prices (SMAIndicator_feed N (ps @ [p])) =
      (if size_t_of_int N < length (drop (length ps - size_t_of_int N) ps @ [p])
       then tl (drop (length ps - size_t_of_int N) ps @ [p])
       else drop (length ps - size_t_of_int N) ps @ [p])"
    unfolding step sma_update_prices snoc.IH sma_feed_window ..
  also have "\<dots> = drop (length (ps @ [p]) - size_t_of_int N) (ps @ [p])"
    by (rule window_slide)
  finally show ?case .
qed

text \<open>
  Claim C5. For a window size \<open>N\<close> with \<open>1 \<le> N\<close> (an \<^verbatim>\<open>int\<close>, so at most \<open>2^31 - 1\<close>):
  with no price fed the SMA value is 0; after feeding \<open>k \<le> N\<close> prices (\<open>k \<ge> 1\<close>) all of
  them are retained and the value is their arithmetic mean; after feeding \<open>k > N\<close> prices
  exactly the \<open>N\<close> most recent ones are retained (the oldest evicted first) and the value
  is the mean of those.
\<close>

theorem sma_value_is_window_mean:
  assumes "1 \<le> N" and "N \<le> 2147483647"
  shows "SMAIndicator_get_value (SMAIndicator_feed N []) = 0
    \<and> (ps \<noteq> [] \<and> length ps \<le> nat N \<longrightarrow>
          sma_prices (SMAIndicator_feed N ps) = ps
          \<and> SMAIndicator_get_value (SMAIndicator_feed N ps) = arithmetic_mean ps)
    \<and> (nat N < length ps \<longrightarrow>
          sma_prices (SMAIndicator_feed N ps) = drop (length ps - nat N) ps
          \<and> length (sma_prices (SMAIndicator_feed N ps)) = nat N
          \<and> SMAIndicator_get_value (SMAIndicator_feed N ps)
              = arithmetic_mean (drop (length ps - nat N) ps))"
proof -
  have n: "size_t_of_int N = nat N" and pos: "0 < nat N"
    using assms by (simp_all add: size_t_of_int_def)
  have retained: "sma_prices (SMAIndicator_feed N ps) = drop (length ps - nat N) ps"
    using sma_feed_prices[of N ps] n by simp
  have val: "SMAIndicator_get_value (SMAIndicator_feed N ps) =
      (if drop (length ps - nat N) ps = [] then 0
       else arithmetic_mean (drop (length ps - nat N) ps))"
    by (simp add: SMAIndicator_get_value_def retained accumulate_sum_list arithmetic_mean_def)
  have empty: "SMAIndicator_get_value (SMAIndicator_feed N []) = 0"
    by (simp add: SMAIndicator_get_value_def SMAIndicator_feed_def SMAIndicator_new_def)
  have short: "ps \<noteq> [] \<and> length ps \<le> nat N \<longrightarrow>
          sma_prices (SMAIndicator_feed N ps) = ps
          \<and> SMAIndicator_get_value (SMAIndicator_feed N ps) = arithmetic_mean ps"
    using retained val by simp
  have long: "nat N < length ps \<longrightarrow>
          sma_prices (SMAIndicator_feed N ps) = drop (length ps - nat N) ps
          \<and> length (sma_prices (SMAIndicator_feed N ps)) = nat N
          \<and> SMAIndicator_get_value (SMAIndicator_feed N ps)
              = arithmetic_mean (drop (length ps - nat N) ps)"
    using retained val pos by auto
  show ?thesis using empty short long by blast
qed

theorem sma_value_is_window_mean_witness:
  "(1::int) \<le> 2 \<and> (2::int) \<le> 2147483647
   \<and> SMAIndicator_get_value (SMAIndicator_feed 2 [10, 20]) = 15
   \<and> SMAIndicator_get_value (SMAIndicator_feed 2 [10, 20, 40]) = 30
   \<and> sma_prices (SMAIndicator_feed 2 [10, 20, 40]) = [20, 40]"
proof -
  have a: "(1::int) \<le> 2" and b: "(2::int) \<le> 2147483647" by simp_all
  have m1: "arithmetic_mean [10, 20] = 15" and m2: "arithmetic_mean [20, 40] = 30"
    by (simp_all add: arithmetic_mean_def)
  show ?thesis
    using sma_value_is_window_mean[OF a b, of "[10, 20]"]
      sma_value_is_window_mean[OF a b, of "[10, 20, 40]"] m1 m2
    by simp
qed

subsection \<open>Volatility\<close>

lemma vol_feed_window: "vol_window_size (VolatilityIndicator_feed N rs) = N"
  unfolding VolatilityIndicator_feed_def
  by (induction rs rule: rev_induct)
    (simp_all add: VolatilityIndicator_new_def VolatilityIndicator_update_def Let_def)

lemma vol_update_returns:
  "vol_returns (VolatilityIndicator_update v r) =
     (if vol_window_size v < length (vol_returns v @ [r])
      then tl (vol_returns v @ [r]) else vol_returns v @ [r])"
  by (simp add: VolatilityIndicator_update_def Let_def)

lemma vol_feed_returns:
  "vol_returns (VolatilityIndicator_feed N rs) = drop (length rs - N) rs"
proof (induction rs rule: rev_induct)
  case Nil
  then show ?case by (simp add: VolatilityIndicator_feed_def VolatilityIndicator_new_def)
next
  case (snoc r rs)
  have step: "VolatilityIndicator_feed N (rs @ [r])
      = VolatilityIndicator_update (VolatilityIndicator_feed N rs) r"
    by (simp add: VolatilityIndicator_feed_def)
  have "vol_returns (VolatilityIndicator_feed N (rs @ [r])) =
      (if N < length (drop (length rs - N) rs @ [r])
       then tl (drop (length rs - N) rs @ [r])
       else drop (length rs - N) rs @ [r])"
    unfolding step vol_update_returns snoc.IH vol_feed_window ..
  also have "\<dots> = drop (length (rs @ [r]) - N) (rs @ [r])"
    by (rule window_slide)
  finally show ?case .
qed

lemma foldl_sq_sum_list:
  "foldl (\<lambda>acc ret. acc + (ret - m) * (ret - m)) a rs
     = a + sum_list (map (\<lambda>r. (r - m)\<^sup>2) (rs :: real list))"
  by (induction rs arbitrary: a) (simp_all add: power2_eq_square)

lemma sum_squared_diffs_sum_list:
  "sum_squared_diffs m rs = sum_list (map (\<lambda>r. (r - m)\<^sup>2) rs)"
  by (simp add: sum_squared_diffs_def foldl_sq_sum_list)

lemma vol_value_short: "length (vol_returns v) < 2 \<Longrightarrow> VolatilityIndicator_get_value v = 0"
  by (simp add: VolatilityIndicator_get_value_def)

lemma vol_value_stddev:
  assumes "2 \<le> length (vol_returns v)"
  shows "VolatilityIndicator_get_value v = sample_stddev (vol_returns v)"
proof -
  have n1: "real (length (vol_returns v) - 1) = real (length (vol_returns v)) - 1"
    using assms by simp
  show ?thesis
    using assms
    by (simp add: VolatilityIndicator_get_value_def Let_def sample_stddev_def arithmetic_mean_def
        accumulate_sum_list sum_squared_diffs_sum_list n1)
qed

lemma vol_zero_returns: "VolatilityIndicator_get_value (VolatilityIndicator_feed N [0, 0, 0]) = 0"
proof -
  obtain k where r: "vol_returns (VolatilityIndicator_feed N [0, 0, 0]) = drop k [0, 0, 0]"
    using vol_feed_returns[of N "[0, 0, 0]"] by blast
  have z: "set (drop k [0, 0, 0 :: real]) \<subseteq> {0}"
    using set_drop_subset[of k "[0, 0, 0 :: real]"] by auto
  have acc: "accumulate xs = 0" and ssd: "sum_squared_diffs 0 xs = 0" if "set xs \<subseteq> {0}" for xs
  proof -
    have "\<forall>x \<in> set xs. x = 0" using that by auto
    then have "sum_list xs = 0" and "sum_list (map (\<lambda>r. (r - 0)\<^sup>2) xs) = 0"
      by (induction xs) simp_all
    then show "accumulate xs = 0" and "sum_squared_diffs 0 xs = 0"
      by (simp_all add: accumulate_sum_list sum_squared_diffs_sum_list)
  qed
  show ?thesis
    by (simp add: VolatilityIndicator_get_value_def Let_def r acc[OF z] ssd[OF z])
qed

text \<open>
  Claim C7. After feeding any returns to a Volatility indicator of window \<open>N\<close> the
  retained returns are the most recent \<open>N\<close> (all of them when fewer were fed). With
  fewer than 2 retained returns the value is 0; with 2 or more it is the sample standard
  deviation of the retained returns, with divisor \<open>count - 1\<close>. Feeding \<open>[0, 0, 0]\<close>
  gives 0 for every window.
\<close>

theorem volatility_value_is_sample_stddev:
  "vol_returns (VolatilityIndicator_feed N rs) = drop (length rs - N) rs
   \<and> (length (vol_returns v) < 2 \<longrightarrow> VolatilityIndicator_get_value v = 0)
   \<and> (2 \<le> length (vol_returns v) \<longrightarrow>
         VolatilityIndicator_get_value v = sample_stddev (vol_returns v))
   \<and> VolatilityIndicator_get_value (VolatilityIndicator_feed N [0, 0, 0]) = 0"
  using vol_feed_returns vol_value_short vol_value_stddev vol_zero_returns by blast

theorem volatility_value_is_sample_stddev_witness:
  "vol_returns (VolatilityIndicator_feed 2 [1, 3, 5]) = [3, 5]
   \<and> VolatilityIndicator_get_value (VolatilityIndicator_feed 2 [1, 3, 5]) = sqrt 2
   \<and> vol_returns (VolatilityIndicator_feed 2 [7]) = [7]
   \<and> VolatilityIndicator_get_value (VolatilityIndicator_feed 2 [7]) = 0"
proof -
  have s: "sample_stddev [3, 5] = sqrt 2"
    by (simp add: sample_stddev_def arithmetic_mean_def)
  show ?thesis
    using volatility_value_is_sample_stddev[of 2 "[1, 3, 5]" "VolatilityIndicator_feed 2 [1, 3, 5]"]
      volatility_value_is_sample_stddev[of 2 "[7]" "VolatilityIndicator_feed 2 [7]"] s
    by simp
qed

subsection \<open>VWAP\<close>

lemma vwap_feed_snoc:
  "VWAPIndicator_feed (xs @ [(p, v, ts)]) = VWAPIndicator_update (VWAPIndicator_feed xs) p v ts"
  by (simp add: VWAPIndicator_feed_def)

lemma current_session_snoc_new:
  assumes "xs = [] \<or> take 10 (snd (snd (last xs))) \<noteq> take 10 ts"
  shows "current_session (xs @ [(p, v, ts)]) = [(p, v, ts)]"
proof (cases "xs = []")
  case True
  then show ?thesis by (simp add: current_session_def)
next
  case False
  then have r: "rev xs = last xs # rev (butlast xs)"
    by (metis append_butlast_last_id rev.simps(2) rev_rev_ident rev_singleton_conv rev_append)
  from False assms have "take 10 (snd (snd (last xs))) \<noteq> take 10 ts" by simp
  then show ?thesis
    by (simp add: current_session_def r case_prod_beta)
qed

lemma current_session_snoc_same:
  assumes "xs \<noteq> []" and "take 10 (snd (snd (last xs))) = take 10 ts"
  shows "current_session (xs @ [(p, v, ts)]) = current_session xs @ [(p, v, ts)]"
  using assms by (simp add: current_session_def case_prod_beta)

lemma wrap_long_id: "in_long x \<Longrightarrow> wrap_long x = x"
  by (simp add: in_long_def wrap_long_def)

lemma wrap_long_add: "wrap_long (wrap_long a + b) = wrap_long (a + b)"
proof -
  have "(wrap_long a + b + 2 ^ 63) mod 2 ^ 64 = ((a + 2 ^ 63) mod 2 ^ 64 + b) mod 2 ^ 64"
    by (simp add: wrap_long_def)
  also have "\<dots> = (a + 2 ^ 63 + b) mod 2 ^ 64"
    by (rule mod_add_left_eq)
  also have "a + 2 ^ 63 + b = a + b + 2 ^ 63"
    by simp
  finally show ?thesis by (simp add: wrap_long_def)
qed

lemma wrap_long_in_long: "in_long (wrap_long x)"
proof -
  have "0 \<le> (x + 2 ^ 63) mod 2 ^ 64" and "(x + 2 ^ 63) mod 2 ^ 64 < (2 ^ 64 :: int)"
    by simp_all
  then show ?thesis by (simp add: in_long_def wrap_long_def)
qed

lemma vwap_feed_session:
  "current_date (VWAPIndicator_feed trades)
      = (if trades = [] then [] else take 10 (snd (snd (last trades))))
   \<and> price_volume_sum (VWAPIndicator_feed trades)
      = sum_list (map (\<lambda>(p, v, ts). p * real_of_int v) (current_session trades))
   \<and> volume_sum (VWAPIndicator_feed trades)
      = wrap_long (sum_list (map (\<lambda>(p, v, ts). v) (current_session trades)))"
proof (induction trades rule: rev_induct)
  case Nil
  then show ?case
    by (simp add: VWAPIndicator_feed_def VWAPIndicator_new_def current_session_def
        wrap_long_def)
next
  case (snoc t xs)
  obtain p v ts where t: "t = (p, v, ts)" by (cases t)
  show ?case
  proof (cases "current_date (VWAPIndicator_feed xs) = take 10 ts")
    case same: True
    show ?thesis
    proof (cases "xs = []")
      case True
      then show ?thesis
        using current_session_snoc_new[of xs ts p v]
        by (simp add: t VWAPIndicator_feed_def VWAPIndicator_new_def VWAPIndicator_update_def
            Let_def)
    next
      case False
      with same snoc.IH have k: "take 10 (snd (snd (last xs))) = take 10 ts" by simp
      show ?thesis
        using snoc.IH same False
        by (simp add: t vwap_feed_snoc VWAPIndicator_update_def Let_def
            current_session_snoc_same[OF False k] wrap_long_add)
    qed
  next
    case new: False
    with snoc.IH have k: "xs = [] \<or> take 10 (snd (snd (last xs))) \<noteq> take 10 ts"
      by (cases "xs = []") simp_all
    show ?thesis
      using new
      by (simp add: t vwap_feed_snoc VWAPIndicator_update_def Let_def
          current_session_snoc_new[OF k])
  qed
qed

text \<open>
  Claim C6. One \<^verbatim>\<open>update\<close> with a volume in the range of \<^verbatim>\<open>long\<close>: when the
  ten-character prefix of the timestamp differs from the stored session key, both
  accumulators restart from zero and the prefix becomes the key, then \<open>price * volume\<close>
  and \<open>volume\<close> are added; when it equals the stored key the accumulators are only added
  to, the volume sum exactly as long as it stays in the range of \<^verbatim>\<open>long\<close>. The first call
  on a fresh indicator (stored key empty) leaves exactly the first trade accumulated under
  its key. Over any list of trades the price-volume accumulator holds the sum over the
  running session and the volume accumulator holds the 64-bit wrap-around of the session's
  volume sum, which is the sum itself when that is in range. Feeding
  \<open>(100, 10, "2024-01-01T00:00")\<close> then \<open>(200, 10, "2024-01-02T00:00")\<close> gives the value
  200. The value is 0 when the volume accumulator is 0, else the quotient of the two
  accumulators.
\<close>

theorem vwap_session_reset_and_value:
  "(current_date w \<noteq> take 10 ts \<and> in_long v \<longrightarrow>
      VWAPIndicator_update w p v ts =
        \<lparr>price_volume_sum = p * real_of_int v, volume_sum = v, current_date = take 10 ts\<rparr>)
   \<and> (current_date w = take 10 ts \<and> in_long (volume_sum w + v) \<longrightarrow>
      VWAPIndicator_update w p v ts =
        \<lparr>price_volume_sum = price_volume_sum w + p * real_of_int v,
         volume_sum = volume_sum w + v, current_date = current_date w\<rparr>)
   \<and> (in_long v \<longrightarrow>
      VWAPIndicator_update VWAPIndicator_new p v ts =
        \<lparr>price_volume_sum = p * real_of_int v, volume_sum = v, current_date = take 10 ts\<rparr>)
   \<and> price_volume_sum (VWAPIndicator_feed trades)
        = sum_list (map (\<lambda>(p, v, ts). p * real_of_int v) (current_session trades))
   \<and> volume_sum (VWAPIndicator_feed trades)
        = wrap_long (sum_list (map (\<lambda>(p, v, ts). v) (current_session trades)))
   \<and> (in_long (sum_list (map (\<lambda>(p, v, ts). v) (current_session trades))) \<longrightarrow>
        volume_sum (VWAPIndicator_feed trades)
          = sum_list (map (\<lambda>(p, v, ts). v) (current_session trades)))
   \<and> VWAPIndicator_get_value
        (VWAPIndicator_feed [(100, 10, ''2024-01-01T00:00''), (200, 10, ''2024-01-02T00:00'')])
        = 200
   \<and> (volume_sum w = 0 \<longrightarrow> VWAPIndicator_get_value w = 0)
   \<and> (volume_sum w \<noteq> 0 \<longrightarrow>
        VWAPIndicator_get_value w = price_volume_sum w / real_of_int (volume_sum w))"
proof -
  have reset: "current_date w \<noteq> take 10 ts \<and> in_long v \<longrightarrow>
      VWAPIndicator_update w p v ts =
        \<lparr>price_volume_sum = p * real_of_int v, volume_sum = v, current_date = take 10 ts\<rparr>"
    by (simp add: VWAPIndicator_update_def Let_def wrap_long_id)
  have keep: "current_date w = take 10 ts \<and> in_long (volume_sum w + v) \<longrightarrow>
      VWAPIndicator_update w p v ts =
        \<lparr>price_volume_sum = price_volume_sum w + p * real_of_int v,
         volume_sum = volume_sum w + v, current_date = current_date w\<rparr>"
    by (simp add: VWAPIndicator_update_def Let_def wrap_long_id)
  have first: "in_long v \<longrightarrow>
      VWAPIndicator_update VWAPIndicator_new p v ts =
        \<lparr>price_volume_sum = p * real_of_int v, volume_sum = v, current_date = take 10 ts\<rparr>"
    by (simp add: VWAPIndicator_update_def VWAPIndicator_new_def Let_def wrap_long_id)
  have ex: "VWAPIndicator_get_value
        (VWAPIndicator_feed [(100, 10, ''2024-01-01T00:00''), (200, 10, ''2024-01-02T00:00'')])
        = 200"
    by (simp add: VWAPIndicator_feed_def VWAPIndicator_update_def VWAPIndicator_new_def
        VWAPIndicator_get_value_def Let_def wrap_long_def)
  have val: "(volume_sum w = 0 \<longrightarrow> VWAPIndicator_get_value w = 0)
     \<and> (volume_sum w \<noteq> 0 \<longrightarrow>
        VWAPIndicator_get_value w = price_volume_sum w / real_of_int (volume_sum w))"
    by (simp add: VWAPIndicator_get_value_def)
  have exact: "in_long (sum_list (map (\<lambda>(p, v, ts). v) (current_session trades))) \<longrightarrow>
        volume_sum (VWAPIndicator_feed trades)
          = sum_list (map (\<lambda>(p, v, ts). v) (current_session trades))"
    using vwap_feed_session[of trades] by (simp add: wrap_long_id)
  show ?thesis using reset keep first ex val exact vwap_feed_session[of trades] by blast
qed

theorem vwap_session_reset_and_value_witness:
  "in_long 10 \<and> in_long (10 + 10)
   \<and> VWAPIndicator_update (VWAPIndicator_feed [(100, 10, ''2024-01-01T00:00'')])
       200 10 ''2024-01-02T00:00''
     = \<lparr>price_volume_sum = 2000, volume_sum = 10, current_date = ''2024-01-02''\<rparr>
   \<and> VWAPIndicator_update (VWAPIndicator_feed [(100, 10, ''2024-01-01T00:00'')])
       200 10 ''2024-01-01T09:00''
     = \<lparr>price_volume_sum = 3000, volume_sum = 20, current_date = ''2024-01-01''\<rparr>
   \<and> volume_sum (VWAPIndicator_feed
        [(100, 10, ''2024-01-01T00:00''), (200, 10, ''2024-01-01T09:00'')]) = 20
   \<and> volume_sum VWAPIndicator_new = 0
   \<and> VWAPIndicator_get_value VWAPIndicator_new = 0
   \<and> VWAPIndicator_get_value (VWAPIndicator_feed [(100, 10, ''2024-01-01T00:00'')]) = 100"
proof -
  have w: "VWAPIndicator_feed [(100, 10, ''2024-01-01T00:00'')]
      = \<lparr>price_volume_sum = 1000, volume_sum = 10, current_date = ''2024-01-01''\<rparr>"
    by (simp add: VWAPIndicator_feed_def VWAPIndicator_update_def VWAPIndicator_new_def Let_def
        wrap_long_def)
  have z: "volume_sum VWAPIndicator_new = 0" by (simp add: VWAPIndicator_new_def)
  have r: "in_long 10" "in_long (10 + 10)" "in_long 0" "in_long 20"
    by (simp_all add: in_long_def)
  have cs: "current_session [(100, 10, ''2024-01-01T00:00''), (200, 10, ''2024-01-01T09:00'')]
      = [(100, 10, ''2024-01-01T00:00''), (200, 10, ''2024-01-01T09:00'')]"
    by (simp add: current_session_def)
  show ?thesis
    using w z r cs
      vwap_session_reset_and_value[of "VWAPIndicator_feed [(100, 10, ''2024-01-01T00:00'')]"
        "''2024-01-02T00:00''" 10 200 "[]"]
      vwap_session_reset_and_value[of "VWAPIndicator_feed [(100, 10, ''2024-01-01T00:00'')]"
        "''2024-01-01T09:00''" 10 200
        "[(100, 10, ''2024-01-01T00:00''), (200, 10, ''2024-01-01T09:00'')]"]
      vwap_session_reset_and_value[of VWAPIndicator_new "[]" 0 0 "[]"]
    by simp
qed

text \<open>
  Past the range of \<^verbatim>\<open>long\<close> the volume accumulator wraps: two trades of volume
  \<open>2^63 - 1\<close> in one session leave it at \<open>-2\<close>.
\<close>

lemma vwap_volume_sum_wraps:
  "volume_sum (VWAPIndicator_feed
     [(1, 9223372036854775807, ''2024-01-01''), (1, 9223372036854775807, ''2024-01-01'')]) = - 2"
  by (simp add: VWAPIndicator_feed_def VWAPIndicator_update_def VWAPIndicator_new_def Let_def
      wrap_long_def)

subsection \<open>Series\<close>

text \<open>
  Claim C8. The first \<^verbatim>\<open>update\<close> call on a freshly constructed Series stores the price
  as \<open>last_price\<close> and leaves the four sub-indicators as they were, so every indicator
  value equals its value before the call.
\<close>

theorem series_first_update_only_seeds:
  "last_price (Series_update (Series_new sw a vw) p v ts) = p
   \<and> sma (Series_update (Series_new sw a vw) p v ts) = sma (Series_new sw a vw)
   \<and> ema (Series_update (Series_new sw a vw) p v ts) = ema (Series_new sw a vw)
   \<and> volatility (Series_update (Series_new sw a vw) p v ts) = volatility (Series_new sw a vw)
   \<and> vwap (Series_update (Series_new sw a vw) p v ts) = vwap (Series_new sw a vw)
   \<and> get_indicator (Series_update (Series_new sw a vw) p v ts) k
       = get_indicator (Series_new sw a vw) k"
  by (cases k) (simp_all add: Series_update_def Series_update_divs_def Series_new_def)

lemma run_divs_nonzero: "0 \<notin> set (snd (Series_run_divs s us))"
proof (induction us arbitrary: s)
  case Nil
  then show ?case by simp
next
  case (Cons u us)
  obtain p v ts where u: "u = (p, v, ts)" by (cases u)
  show ?case using Cons.IH[of "fst (Series_update_divs s p v ts)"]
    by (auto simp: u Series_update_divs_def Let_def split: prod.splits if_splits)
qed

text \<open>
  Claim C10. Over any sequence of \<^verbatim>\<open>update\<close> calls from any state, with any prices
  (0 included), no division is evaluated with divisor 0: a call made with
  \<open>last_price = 0\<close> takes the seed branch, which stores the price and divides by nothing;
  a call made with \<open>last_price \<noteq> 0\<close> divides by \<open>last_price\<close> only. An update with price
  0 leaves \<open>last_price = 0\<close>, so the next call takes the seed branch again.
\<close>

theorem series_update_never_divides_by_zero:
  "0 \<notin> set (snd (Series_run_divs s us))
   \<and> (last_price s = 0 \<longrightarrow> Series_update_divs s p v ts = (s\<lparr>last_price := p\<rparr>, []))
   \<and> (last_price s \<noteq> 0 \<longrightarrow> snd (Series_update_divs s p v ts) = [last_price s])
   \<and> last_price (Series_update s 0 v ts) = 0
   \<and> Series_update_divs (Series_update s 0 v ts) p' v' ts'
        = ((Series_update s 0 v ts)\<lparr>last_price := p'\<rparr>, [])"
proof -
  have zero: "last_price (Series_update s 0 v ts) = 0"
    by (simp add: Series_update_def Series_update_divs_def Let_def)
  have seed: "last_price s = 0 \<longrightarrow> Series_update_divs s p v ts = (s\<lparr>last_price := p\<rparr>, [])"
    by (simp add: Series_update_divs_def)
  have dv: "last_price s \<noteq> 0 \<longrightarrow> snd (Series_update_divs s p v ts) = [last_price s]"
    by (simp add: Series_update_divs_def Let_def)
  have nxt: "Series_update_divs (Series_update s 0 v ts) p' v' ts'
        = ((Series_update s 0 v ts)\<lparr>last_price := p'\<rparr>, [])"
    using zero by (simp add: Series_update_divs_def)
  show ?thesis using run_divs_nonzero zero seed dv nxt by blast
qed

theorem series_update_never_divides_by_zero_witness:
  "last_price (Series_new 2 (1/2) 2) = 0
   \<and> Series_update_divs (Series_new 2 (1/2) 2) 100 10 ''2024-01-01''
       = ((Series_new 2 (1/2) 2)\<lparr>last_price := 100\<rparr>, [])
   \<and> snd (Series_run_divs (Series_new 2 (1/2) 2)
        [(100, 10, ''2024-01-01''), (0, 10, ''2024-01-01''), (50, 10, ''2024-01-01''),
         (25, 10, ''2024-01-01'')]) = [100, 50]
   \<and> 0 \<notin> set (snd (Series_run_divs (Series_new 2 (1/2) 2)
        [(100, 10, ''2024-01-01''), (0, 10, ''2024-01-01''), (50, 10, ''2024-01-01''),
         (25, 10, ''2024-01-01'')]))"
proof -
  have lp: "last_price (Series_new 2 (1/2) 2) = 0" by (simp add: Series_new_def)
  have run: "snd (Series_run_divs (Series_new 2 (1/2) 2)
        [(100, 10, ''2024-01-01''), (0, 10, ''2024-01-01''), (50, 10, ''2024-01-01''),
         (25, 10, ''2024-01-01'')]) = [100, 50]"
    by (simp add: Series_new_def Series_update_divs_def Let_def)
  show ?thesis
    using lp run
      series_update_never_divides_by_zero[of "Series_new 2 (1/2) 2"
        "[(100, 10, ''2024-01-01''), (0, 10, ''2024-01-01''), (50, 10, ''2024-01-01''),
          (25, 10, ''2024-01-01'')]" 100 10 "''2024-01-01''"]
    by simp
qed

subsection \<open>Tokenizer\<close>

declare split_loop.simps [simp del]

lemma split_scan_full: "\<not> fi < 4 \<Longrightarrow> split_scan cs fa fi start i = fa"
  by (cases cs) simp_all

lemma split_loop_scan:
  "i \<le> length line \<Longrightarrow> split_loop line fa fi start i = split_scan (drop i line) fa fi start i"
proof (induction line fa fi start i rule: split_loop.induct)
  case (1 line fa fi start i)
  show ?case
  proof (cases "fi < 4")
    case False
    then have "split_loop line fa fi start i = fa"
      by (subst split_loop.simps) simp
    then show ?thesis using False by (simp add: split_scan_full)
  next
    case fi: True
    show ?thesis
    proof (cases "i = length line")
      case True
      have "split_loop line fa fi start i =
          split_loop line (fa[fi := \<lparr>fr_start = Some start, fr_length = i - start\<rparr>])
            (fi + 1) (i + 1) (i + 1)"
        using fi True by (subst split_loop.simps) simp
      also have "\<dots> = fa[fi := \<lparr>fr_start = Some start, fr_length = i - start\<rparr>]"
        using True by (subst split_loop.simps) simp
      finally show ?thesis using fi True by simp
    next
      case False
      with "1.prems" have lt: "i < length line" by simp
      then have d: "drop i line = line ! i # drop (Suc i) line"
        by (simp add: Cons_nth_drop_Suc)
      show ?thesis
      proof (cases "line ! i = CHR '',''")
        case True
        have "split_loop line fa fi start i =
          split_loop line (fa[fi := \<lparr>fr_start = Some start, fr_length = i - start\<rparr>])
            (fi + 1) (i + 1) (i + 1)"
          using fi True lt by (subst split_loop.simps) simp
        also have "\<dots> = split_scan (drop (i + 1) line)
            (fa[fi := \<lparr>fr_start = Some start, fr_length = i - start\<rparr>])
            (fi + 1) (i + 1) (i + 1)"
          using "1.IH"(1) fi True lt by simp
        finally show ?thesis using fi True d by simp
      next
        case nc: False
        have "split_loop line fa fi start i = split_loop line fa fi start (i + 1)"
          using fi nc lt by (subst split_loop.simps) simp
        also have "\<dots> = split_scan (drop (i + 1) line) fa fi start (i + 1)"
          using "1.IH"(2) fi nc lt by simp
        finally show ?thesis using fi nc d by simp
      qed
    qed
  qed
qed

lemma split_csv_line_scan:
  "split_csv_line line = split_scan line (replicate 4 FieldRange_zero) 0 0 0"
  by (simp add: split_csv_line_def split_loop_scan)

lemma next_offset_snoc:
  "next_offset fs = Some off \<Longrightarrow>
   next_offset (fs @ [\<lparr>fr_start = Some off, fr_length = n\<rparr>]) = Some (off + n + 1)"
  by (simp add: next_offset_def)

lemma record_delimited:
  assumes "length pre = i" and "start \<le> i" and "CHR '','' \<notin> set (drop start pre)"
    and "cs = [] \<or> hd cs = CHR '',''"
  shows "span_delimited (pre @ cs) \<lparr>fr_start = Some start, fr_length = i - start\<rparr>"
proof -
  have "take (i - start) (drop start (pre @ cs)) = drop start pre"
    using assms(1,2) by simp
  moreover have "i = length (pre @ cs) \<or> (pre @ cs) ! i = CHR '',''"
    using assms(1,4) by (cases cs) (auto simp: nth_append)
  ultimately show ?thesis
    using assms by (simp add: span_delimited_def field_string_def)
qed

lemma record_field:
  assumes len: "length fa = 4" and fi: "fi < 4" and le: "start \<le> i"
    and lay: "next_offset (take fi fa) = Some start"
    and rest: "drop fi fa = replicate (4 - fi) FieldRange_zero"
    and del: "list_all (span_delimited line) (take fi fa)"
    and new: "span_delimited line \<lparr>fr_start = Some start, fr_length = i - start\<rparr>"
  shows "next_offset (take (Suc fi) (fa[fi := \<lparr>fr_start = Some start, fr_length = i - start\<rparr>]))
           = Some (i + 1)"
    and "drop (Suc fi) (fa[fi := \<lparr>fr_start = Some start, fr_length = i - start\<rparr>])
           = replicate (3 - fi) FieldRange_zero"
    and "list_all (span_delimited line)
           (take (Suc fi) (fa[fi := \<lparr>fr_start = Some start, fr_length = i - start\<rparr>]))"
proof -
  let ?f = "\<lparr>fr_start = Some start, fr_length = i - start\<rparr>"
  have t: "take (Suc fi) (fa[fi := ?f]) = take fi fa @ [?f]"
    using len fi by (simp add: take_Suc_conv_app_nth)
  then show "next_offset (take (Suc fi) (fa[fi := ?f])) = Some (i + 1)"
    using next_offset_snoc[OF lay, of "i - start"] le by simp
  have "drop (Suc fi) (fa[fi := ?f]) = drop (Suc fi) fa" by simp
  also have "\<dots> = drop 1 (drop fi fa)" by simp
  also have "\<dots> = replicate (3 - fi) FieldRange_zero"
    unfolding rest using fi by simp
  finally show "drop (Suc fi) (fa[fi := ?f]) = replicate (3 - fi) FieldRange_zero" .
  show "list_all (span_delimited line) (take (Suc fi) (fa[fi := ?f]))"
    unfolding t using del new by simp
qed

lemma split_scan_layout:
  assumes "length fa = 4" and "fi < 4" and "start \<le> i" and "length pre = i"
    and "next_offset (take fi fa) = Some start"
    and "drop fi fa = replicate (4 - fi) FieldRange_zero"
    and "list_all (span_delimited (pre @ cs)) (take fi fa)"
    and "CHR '','' \<notin> set (drop start pre)"
    and "count_list pre (CHR '','') = fi"
  shows "length (split_scan cs fa fi start i) = 4
    \<and> (fi + count_list cs (CHR '','') < 4 \<longrightarrow>
          next_offset (take (fi + count_list cs (CHR '','') + 1) (split_scan cs fa fi start i))
            = Some (i + length cs + 1)
          \<and> drop (fi + count_list cs (CHR '','') + 1) (split_scan cs fa fi start i)
            = replicate (3 - (fi + count_list cs (CHR '',''))) FieldRange_zero
          \<and> list_all (span_delimited (pre @ cs))
              (take (fi + count_list cs (CHR '','') + 1) (split_scan cs fa fi start i)))
    \<and> (4 \<le> fi + count_list cs (CHR '','') \<longrightarrow>
          (\<exists>e. next_offset (split_scan cs fa fi start i) = Some (e + 1)
               \<and> e < i + length cs \<and> (pre @ cs) ! e = CHR '',''
               \<and> count_list (take e (pre @ cs)) (CHR '','') = 3)
          \<and> list_all (span_delimited (pre @ cs)) (split_scan cs fa fi start i))"
  using assms
proof (induction cs arbitrary: fa fi start i pre)
  case Nil
  have new: "span_delimited (pre @ []) \<lparr>fr_start = Some start, fr_length = i - start\<rparr>"
    using Nil.prems by (intro record_delimited) simp_all
  show ?case
    using Nil.prems record_field[OF Nil.prems(1,2,3,5,6,7) new] by simp
next
  case (Cons c cs)
  let ?f = "\<lparr>fr_start = Some start, fr_length = i - start\<rparr>"
  let ?L = "pre @ c # cs"
  show ?case
  proof (cases "c = CHR '',''")
    case comma: True
    have new: "span_delimited ?L ?f"
      using Cons.prems comma by (intro record_delimited) simp_all
    note rf = record_field[OF Cons.prems(1,2,3,5,6,7) new]
    show ?thesis
    proof (cases "fi + 1 < 4")
      case True
      have ih: "length (split_scan cs (fa[fi := ?f]) (fi + 1) (i + 1) (i + 1)) = 4
        \<and> (fi + 1 + count_list cs (CHR '','') < 4 \<longrightarrow>
          next_offset (take (fi + 1 + count_list cs (CHR '','') + 1)
              (split_scan cs (fa[fi := ?f]) (fi + 1) (i + 1) (i + 1)))
            = Some (i + 1 + length cs + 1)
          \<and> drop (fi + 1 + count_list cs (CHR '','') + 1)
              (split_scan cs (fa[fi := ?f]) (fi + 1) (i + 1) (i + 1))
            = replicate (3 - (fi + 1 + count_list cs (CHR '',''))) FieldRange_zero
          \<and> list_all (span_delimited ((pre @ [c]) @ cs))
              (take (fi + 1 + count_list cs (CHR '','') + 1)
                (split_scan cs (fa[fi := ?f]) (fi + 1) (i + 1) (i + 1))))
        \<and> (4 \<le> fi + 1 + count_list cs (CHR '','') \<longrightarrow>
          (\<exists>e. next_offset (split_scan cs (fa[fi := ?f]) (fi + 1) (i + 1) (i + 1)) = Some (e + 1)
               \<and> e < i + 1 + length cs \<and> ((pre @ [c]) @ cs) ! e = CHR '',''
               \<and> count_list (take e ((pre @ [c]) @ cs)) (CHR '','') = 3)
          \<and> list_all (span_delimited ((pre @ [c]) @ cs))
              (split_scan cs (fa[fi := ?f]) (fi + 1) (i + 1) (i + 1)))"
        using True rf Cons.prems comma
        by (intro Cons.IH) simp_all
      show ?thesis using ih Cons.prems(2) comma by simp
    next
      case False
      with Cons.prems(2) have fi3: "fi = 3" by simp
      have res: "split_scan (c # cs) fa fi start i = fa[fi := ?f]"
        using fi3 comma by (simp add: split_scan_full)
      have no: "next_offset (fa[fi := ?f]) = Some (i + 1)"
        and da: "list_all (span_delimited ?L) (fa[fi := ?f])"
        using rf(1,3) fi3 Cons.prems(1) by simp_all
      have at: "?L ! i = CHR '',''"
        using Cons.prems(4) comma by (simp add: nth_append)
      have cnt: "count_list (take i ?L) (CHR '','') = 3"
        using Cons.prems(4,9) fi3 by simp
      have "\<exists>e. next_offset (fa[fi := ?f]) = Some (e + 1) \<and> e < i + length (c # cs)
          \<and> ?L ! e = CHR '','' \<and> count_list (take e ?L) (CHR '','') = 3"
        using no at cnt by (intro exI[of _ i]) simp
      then show ?thesis using res da fi3 comma Cons.prems(1) by simp
    qed
  next
    case nc: False
    have ih: "length (split_scan cs fa fi start (i + 1)) = 4
        \<and> (fi + count_list cs (CHR '','') < 4 \<longrightarrow>
          next_offset (take (fi + count_list cs (CHR '','') + 1)
              (split_scan cs fa fi start (i + 1)))
            = Some (i + 1 + length cs + 1)
          \<and> drop (fi + count_list cs (CHR '','') + 1)
              (split_scan cs fa fi start (i + 1))
            = replicate (3 - (fi + count_list cs (CHR '',''))) FieldRange_zero
          \<and> list_all (span_delimited ((pre @ [c]) @ cs))
              (take (fi + count_list cs (CHR '','') + 1) (split_scan cs fa fi start (i + 1))))
        \<and> (4 \<le> fi + count_list cs (CHR '','') \<longrightarrow>
          (\<exists>e. next_offset (split_scan cs fa fi start (i + 1)) = Some (e + 1)
               \<and> e < i + 1 + length cs \<and> ((pre @ [c]) @ cs) ! e = CHR '',''
               \<and> count_list (take e ((pre @ [c]) @ cs)) (CHR '','') = 3)
          \<and> list_all (span_delimited ((pre @ [c]) @ cs)) (split_scan cs fa fi start (i + 1)))"
      using Cons.prems nc by (intro Cons.IH) simp_all
    show ?thesis using ih Cons.prems(2) nc by simp
  qed
qed


lemma next_offset_last_set:
  "next_offset (fs @ [f]) = Some k \<Longrightarrow> fr_start f \<noteq> None"
  by (auto simp: next_offset_def split: option.splits if_splits)

text \<open>The layout and the delimiters determine a list of spans of a given length.\<close>

lemma next_offset_None: 
  "foldl (\<lambda>acc f. case acc of None \<Rightarrow> None
       | Some off \<Rightarrow> if fr_start f = Some off then Some (off + fr_length f + 1) else None)
     None fs = None"
  by (induction fs) simp_all

lemma delimited_length_unique:
  assumes "span_delimited line f" and "span_delimited line g"
    and "fr_start f = Some k" and "fr_start g = Some k"
  shows "fr_length f \<le> fr_length g"
proof (rule ccontr)
  assume "\<not> fr_length f \<le> fr_length g"
  then have lt: "fr_length g < fr_length f" by simp
  from assms(1,3) have fb: "k + fr_length f \<le> length line"
    and ff: "CHR '','' \<notin> set (take (fr_length f) (drop k line))"
    by (simp_all add: span_delimited_def field_string_def)
  from assms(2,4) lt fb have "line ! (k + fr_length g) = CHR '',''"
    by (auto simp: span_delimited_def)
  moreover have "take (fr_length f) (drop k line) ! fr_length g = line ! (k + fr_length g)"
    using lt fb by simp
  moreover have "fr_length g < length (take (fr_length f) (drop k line))"
    using lt fb by simp
  ultimately have "CHR '','' \<in> set (take (fr_length f) (drop k line))"
    by (metis nth_mem)
  with ff show False by simp
qed

lemma layout_unique_from:
  assumes "foldl (\<lambda>acc f. case acc of None \<Rightarrow> None
       | Some off \<Rightarrow> if fr_start f = Some off then Some (off + fr_length f + 1) else None)
     (Some k) fs \<noteq> None"
    and "foldl (\<lambda>acc f. case acc of None \<Rightarrow> None
       | Some off \<Rightarrow> if fr_start f = Some off then Some (off + fr_length f + 1) else None)
     (Some k) gs \<noteq> None"
    and "list_all (span_delimited line) fs" and "list_all (span_delimited line) gs"
    and "length fs = length gs"
  shows "fs = gs"
  using assms
proof (induction fs arbitrary: gs k)
  case Nil
  then show ?case by simp
next
  case (Cons f fs)
  then obtain g gs' where gs: "gs = g # gs'" by (cases gs) auto
  have sf: "fr_start f = Some k"
    using Cons.prems(1) by (auto simp: next_offset_None split: if_splits)
  have sg: "fr_start g = Some k"
    using Cons.prems(2) gs by (auto simp: next_offset_None split: if_splits)
  have df: "span_delimited line f" and dg: "span_delimited line g"
    using Cons.prems(3,4) gs by simp_all
  have l: "fr_length f = fr_length g"
    using delimited_length_unique[OF df dg sf sg] delimited_length_unique[OF dg df sg sf]
    by simp
  have fg: "f = g" using sf sg l by simp
  have "fs = gs'"
  proof (rule Cons.IH)
    show "foldl (\<lambda>acc f. case acc of None \<Rightarrow> None
       | Some off \<Rightarrow> if fr_start f = Some off then Some (off + fr_length f + 1) else None)
     (Some (k + fr_length f + 1)) fs \<noteq> None"
      using Cons.prems(1) sf by simp
    show "foldl (\<lambda>acc f. case acc of None \<Rightarrow> None
       | Some off \<Rightarrow> if fr_start f = Some off then Some (off + fr_length f + 1) else None)
     (Some (k + fr_length f + 1)) gs' \<noteq> None"
      using Cons.prems(2) gs sg l by simp
    show "list_all (span_delimited line) fs" using Cons.prems(3) by simp
    show "list_all (span_delimited line) gs'" using Cons.prems(4) gs by simp
    show "length fs = length gs'" using Cons.prems(5) gs by simp
  qed
  with fg gs show ?case by simp
qed

lemma layout_unique:
  assumes "next_offset fs \<noteq> None" and "next_offset gs \<noteq> None"
    and "list_all (span_delimited line) fs" and "list_all (span_delimited line) gs"
    and "length fs = length gs"
  shows "fs = gs"
  using assms layout_unique_from[of 0 fs gs line] by (simp add: next_offset_def)

text \<open>
  Claim C4, as stated, fails: on a line with more than 3 commas the four spans stop at
  the 4th comma and do not cover the line, and on a line with fewer than 2 commas the
  parser hands the null pointer of the unset third entry to \<^verbatim>\<open>strtod\<close>.
\<close>

theorem split_csv_line_cover_counterexample:
  "\<not> spans_cover ''a,b,c,d,e'' (split_csv_line ''a,b,c,d,e'')
   \<and> parse_line libc ''t,SYM'' = Inl StrtodNullPointer"
  by code_simp

text \<open>
  Claim C4, amended. \<^verbatim>\<open>split_csv_line\<close> always returns four entries. On a line with
  exactly 3 commas the four spans are laid out one after the other from offset 0, each
  starting one character after the end of the one before, and the last ends at the end
  of the line; each span holds no comma and ends at a comma or at the end of the line,
  so the skipped characters are the three commas and the spans with them cover the whole
  line. On a line with more than 3 commas the four spans are laid out and delimited the
  same way, and the last one ends at the 4th comma of the line (a comma preceded by
  exactly 3 commas): the rest of the line is not covered. On a line with \<open>k < 3\<close> commas
  the first \<open>k + 1\<close> entries are laid out and delimited that way and cover the whole line,
  and the remaining entries are zero-initialised (null start, length 0). These properties
  determine the four entries: any four entries that have them are the result. A line
  with exactly 2 commas is returned as invalid by \<^verbatim>\<open>parse_line\<close>, for every library whose
  \<^verbatim>\<open>from_chars\<close> reports an error on the empty range; the \<^verbatim>\<open>parse_line\<close> of the top-level
  \<^verbatim>\<open>analyzer.cpp\<close> returns the invalid row for every line with fewer than 3 commas, for
  every library whose \<^verbatim>\<open>stol\<close> throws on the empty string.
\<close>

theorem split_csv_line_layout:
  "length (split_csv_line line) = 4
   \<and> (count_list line (CHR '','') = 3 \<longrightarrow>
        spans_cover line (split_csv_line line)
        \<and> list_all (span_delimited line) (split_csv_line line))
   \<and> (3 < count_list line (CHR '','') \<longrightarrow>
        (\<exists>e. next_offset (split_csv_line line) = Some (e + 1)
             \<and> e < length line \<and> line ! e = CHR '',''
             \<and> count_list (take e line) (CHR '','') = 3)
        \<and> list_all (span_delimited line) (split_csv_line line))
   \<and> (count_list line (CHR '','') < 3 \<longrightarrow>
        spans_cover line (take (count_list line (CHR '','') + 1) (split_csv_line line))
        \<and> list_all (span_delimited line)
            (take (count_list line (CHR '','') + 1) (split_csv_line line))
        \<and> drop (count_list line (CHR '','') + 1) (split_csv_line line)
            = replicate (3 - count_list line (CHR '','')) FieldRange_zero)
   \<and> (count_list line (CHR '','') = 2 \<and> from_chars L [] = Inl ec \<longrightarrow>
        parse_line L line = Inr ParsedRow_invalid)
   \<and> (count_list line (CHR '','') < 3 \<and> stol L [] = None \<longrightarrow>
        parse_line_toplevel L line = ParsedRow_invalid)
   \<and> (3 \<le> count_list line (CHR '','') \<and> length gs = 4 \<and> next_offset gs \<noteq> None
        \<and> list_all (span_delimited line) gs \<longrightarrow>
        gs = split_csv_line line)
   \<and> (count_list line (CHR '','') < 3 \<and> length gs = 4
        \<and> next_offset (take (count_list line (CHR '','') + 1) gs) \<noteq> None
        \<and> list_all (span_delimited line) (take (count_list line (CHR '','') + 1) gs)
        \<and> drop (count_list line (CHR '','') + 1) gs
            = replicate (3 - count_list line (CHR '','')) FieldRange_zero \<longrightarrow>
        gs = split_csv_line line)"
proof -
  let ?fs = "split_csv_line line"
  let ?n = "count_list line (CHR '','')"
  have lay: "length ?fs = 4
    \<and> (0 + ?n < 4 \<longrightarrow>
          next_offset (take (0 + ?n + 1) ?fs) = Some (0 + length line + 1)
          \<and> drop (0 + ?n + 1) ?fs = replicate (3 - (0 + ?n)) FieldRange_zero
          \<and> list_all (span_delimited ([] @ line)) (take (0 + ?n + 1) ?fs))
    \<and> (4 \<le> 0 + ?n \<longrightarrow>
          (\<exists>e. next_offset ?fs = Some (e + 1) \<and> e < 0 + length line
               \<and> ([] @ line) ! e = CHR '',''
               \<and> count_list (take e ([] @ line)) (CHR '','') = 3)
          \<and> list_all (span_delimited ([] @ line)) ?fs)"
    unfolding split_csv_line_scan
    by (rule split_scan_layout) (simp_all add: next_offset_def)
  have len: "length ?fs = 4" using lay by blast
  have three: "?n = 3 \<longrightarrow> spans_cover line ?fs \<and> list_all (span_delimited line) ?fs"
    using lay len by (auto simp: spans_cover_def)
  have more: "3 < ?n \<longrightarrow>
        (\<exists>e. next_offset ?fs = Some (e + 1) \<and> e < length line \<and> line ! e = CHR '',''
             \<and> count_list (take e line) (CHR '','') = 3)
        \<and> list_all (span_delimited line) ?fs"
    using lay by auto
  have fewer: "?n < 3 \<longrightarrow>
        spans_cover line (take (?n + 1) ?fs)
        \<and> list_all (span_delimited line) (take (?n + 1) ?fs)
        \<and> drop (?n + 1) ?fs = replicate (3 - ?n) FieldRange_zero"
    using lay by (auto simp: spans_cover_def)
  have two: "?n = 2 \<and> from_chars L [] = Inl ec \<longrightarrow> parse_line L line = Inr ParsedRow_invalid"
  proof
    assume a: "?n = 2 \<and> from_chars L [] = Inl ec"
    with fewer have c: "next_offset (take 3 ?fs) = Some (length line + 1)"
      and d: "drop 3 ?fs = replicate 1 FieldRange_zero"
      by (simp_all add: spans_cover_def)
    have "take 3 ?fs = take 2 ?fs @ [?fs ! 2]"
      using len take_Suc_conv_app_nth[of 2 ?fs] by (simp add: numeral_3_eq_3 numeral_2_eq_2)
    with c have "fr_start (?fs ! 2) \<noteq> None"
      using next_offset_last_set by metis
    then obtain off where off: "fr_start (?fs ! 2) = Some off" by auto
    have "?fs ! 3 = hd (drop 3 ?fs)" using len by (simp add: hd_drop_conv_nth)
    then have z: "field_string line (?fs ! 3) = []"
      using d by (simp add: field_string_def FieldRange_zero_def)
    show "parse_line L line = Inr ParsedRow_invalid"
      using a len off z by (simp add: parse_line_def Let_def split: prod.splits)
  qed
  have top: "?n < 3 \<and> stol L [] = None \<longrightarrow> parse_line_toplevel L line = ParsedRow_invalid"
  proof
    assume a: "?n < 3 \<and> stol L [] = None"
    with fewer have d: "drop (?n + 1) ?fs = replicate (3 - ?n) FieldRange_zero" by simp
    have "?fs ! 3 = drop (?n + 1) ?fs ! (2 - ?n)"
      using a len by simp
    also have "\<dots> = replicate (3 - ?n) FieldRange_zero ! (2 - ?n)"
      by (simp only: d)
    also have "\<dots> = FieldRange_zero"
      using a by (intro nth_replicate) arith
    finally have z: "field_string line (?fs ! 3) = []"
      by (simp add: field_string_def FieldRange_zero_def)
    show "parse_line_toplevel L line = ParsedRow_invalid"
      using a len z by (simp add: parse_line_toplevel_def Let_def split: option.splits)
  qed
  have uniq_full: "3 \<le> ?n \<and> length gs = 4 \<and> next_offset gs \<noteq> None
        \<and> list_all (span_delimited line) gs \<longrightarrow> gs = ?fs"
  proof
    assume a: "3 \<le> ?n \<and> length gs = 4 \<and> next_offset gs \<noteq> None
        \<and> list_all (span_delimited line) gs"
    have "next_offset ?fs \<noteq> None \<and> list_all (span_delimited line) ?fs"
    proof (cases "?n = 3")
      case True
      with three show ?thesis by (simp add: spans_cover_def)
    next
      case False
      with a have "3 < ?n" by simp
      with more show ?thesis by auto
    qed
    with a len show "gs = ?fs" by (intro layout_unique[of gs ?fs line]) simp_all
  qed
  have uniq_short: "?n < 3 \<and> length gs = 4
        \<and> next_offset (take (?n + 1) gs) \<noteq> None
        \<and> list_all (span_delimited line) (take (?n + 1) gs)
        \<and> drop (?n + 1) gs = replicate (3 - ?n) FieldRange_zero \<longrightarrow> gs = ?fs"
  proof
    assume a: "?n < 3 \<and> length gs = 4
        \<and> next_offset (take (?n + 1) gs) \<noteq> None
        \<and> list_all (span_delimited line) (take (?n + 1) gs)
        \<and> drop (?n + 1) gs = replicate (3 - ?n) FieldRange_zero"
    with fewer have f: "next_offset (take (?n + 1) ?fs) \<noteq> None"
      and g: "list_all (span_delimited line) (take (?n + 1) ?fs)"
      and d: "drop (?n + 1) ?fs = drop (?n + 1) gs"
      by (simp_all add: spans_cover_def)
    have t: "take (?n + 1) gs = take (?n + 1) ?fs"
      using a f g len by (intro layout_unique[of _ _ line]) simp_all
    have "gs = take (?n + 1) gs @ drop (?n + 1) gs" by simp
    also have "\<dots> = take (?n + 1) ?fs @ drop (?n + 1) ?fs" by (simp only: t d)
    also have "\<dots> = ?fs" by simp
    finally show "gs = ?fs" .
  qed
  show ?thesis using len three more fewer two top uniq_full uniq_short by blast
qed

theorem split_csv_line_layout_witness:
  "count_list ''a,bb,c,d'' (CHR '','') = 3
   \<and> spans_cover ''a,bb,c,d'' (split_csv_line ''a,bb,c,d'')
   \<and> list_all (span_delimited ''a,bb,c,d'') (split_csv_line ''a,bb,c,d'')
   \<and> next_offset [\<lparr>fr_start = Some 0, fr_length = 1\<rparr>, \<lparr>fr_start = Some 2, fr_length = 2\<rparr>,
        \<lparr>fr_start = Some 5, fr_length = 1\<rparr>, \<lparr>fr_start = Some 7, fr_length = 1\<rparr>] \<noteq> None
   \<and> list_all (span_delimited ''a,bb,c,d'')
        [\<lparr>fr_start = Some 0, fr_length = 1\<rparr>, \<lparr>fr_start = Some 2, fr_length = 2\<rparr>,
         \<lparr>fr_start = Some 5, fr_length = 1\<rparr>, \<lparr>fr_start = Some 7, fr_length = 1\<rparr>]
   \<and> [\<lparr>fr_start = Some 0, fr_length = 1\<rparr>, \<lparr>fr_start = Some 2, fr_length = 2\<rparr>,
        \<lparr>fr_start = Some 5, fr_length = 1\<rparr>, \<lparr>fr_start = Some 7, fr_length = 1\<rparr>]
       = split_csv_line ''a,bb,c,d''
   \<and> 3 < count_list ''a,b,c,d,e'' (CHR '','')
   \<and> (\<exists>e. next_offset (split_csv_line ''a,b,c,d,e'') = Some (e + 1)
          \<and> e < length ''a,b,c,d,e'' \<and> ''a,b,c,d,e'' ! e = CHR '',''
          \<and> count_list (take e ''a,b,c,d,e'') (CHR '','') = 3)
   \<and> count_list ''a,b'' (CHR '','') < 3
   \<and> spans_cover ''a,b'' (take 2 (split_csv_line ''a,b''))
   \<and> drop 2 (split_csv_line ''a,b'') = [FieldRange_zero, FieldRange_zero]
   \<and> count_list ''t,S,1.5'' (CHR '','') = 2
   \<and> from_chars libc [] = Inl invalid_argument
   \<and> parse_line libc ''t,S,1.5'' = Inr ParsedRow_invalid
   \<and> stol libc [] = None
   \<and> parse_line_toplevel libc ''a,b'' = ParsedRow_invalid"
proof -
  let ?gs = "[\<lparr>fr_start = Some 0, fr_length = 1\<rparr>, \<lparr>fr_start = Some 2, fr_length = 2\<rparr>,
        \<lparr>fr_start = Some 5, fr_length = 1\<rparr>, \<lparr>fr_start = Some 7, fr_length = 1\<rparr>]"
  have c1: "count_list ''a,bb,c,d'' (CHR '','') = 3"
    and c2: "3 < count_list ''a,b,c,d,e'' (CHR '','')"
    and c3: "count_list ''a,b'' (CHR '','') = 1"
    and c4: "count_list ''t,S,1.5'' (CHR '','') = 2"
    by simp_all
  have fc: "from_chars libc [] = Inl invalid_argument" by code_simp
  have sl: "stol libc [] = None" by code_simp
  have r: "replicate 2 FieldRange_zero = [FieldRange_zero, FieldRange_zero]"
    by (simp add: numeral_2_eq_2)
  have g1: "next_offset ?gs \<noteq> None" by code_simp
  have g2: "list_all (span_delimited ''a,bb,c,d'') ?gs" by code_simp
  have u: "?gs = split_csv_line ''a,bb,c,d''"
    using c1 g1 g2 split_csv_line_layout[of "''a,bb,c,d''" libc invalid_argument ?gs]
    by simp
  show ?thesis
    using c1 c2 c3 c4 fc sl r g1 g2 u
      split_csv_line_layout[of "''a,bb,c,d''" libc invalid_argument ?gs]
      split_csv_line_layout[of "''a,b,c,d,e''" libc invalid_argument ?gs]
      split_csv_line_layout[of "''a,b''" libc invalid_argument ?gs]
      split_csv_line_layout[of "''t,S,1.5''" libc invalid_argument ?gs]
    by (simp add: numeral_2_eq_2)
qed

subsection \<open>Row parser\<close>

text \<open>
  Claim C1, evaluated on the code. The volume field \<open>1000abc\<close> is not a fully consumed
  integer literal, and the second line has five fields; \<^verbatim>\<open>parse_line\<close> returns a valid row
  for both, with volume 1000, and so does the \<^verbatim>\<open>parse_line\<close> of the top-level
  \<^verbatim>\<open>analyzer.cpp\<close>.
\<close>

theorem parse_line_accepts_trailing_garbage:
  "parse_line libc ''2024-01-15 09:30:00,AAPL,150.25,1000abc''
     = Inr \<lparr>timestamp = ''2024-01-15 09:30:00'', symbol = ''AAPL'', price = 150.25,
            volume = 1000, is_valid = True\<rparr>
   \<and> parse_line libc ''2024-01-15 09:30:00,AAPL,150.25,1000,extra''
     = Inr \<lparr>timestamp = ''2024-01-15 09:30:00'', symbol = ''AAPL'', price = 150.25,
            volume = 1000, is_valid = True\<rparr>
   \<and> parse_line_toplevel libc ''2024-01-15 09:30:00,AAPL,150.25,1000abc''
     = \<lparr>timestamp = ''2024-01-15 09:30:00'', symbol = ''AAPL'', price = 150.25,
        volume = 1000, is_valid = True\<rparr>
   \<and> parse_line_toplevel libc ''2024-01-15 09:30:00,AAPL,150.25,1000,extra''
     = \<lparr>timestamp = ''2024-01-15 09:30:00'', symbol = ''AAPL'', price = 150.25,
        volume = 1000, is_valid = True\<rparr>"
  by code_simp

subsection \<open>Output rows\<close>

text \<open>
  Claim C2, evaluated on the code. After the prices 100 (seed), 110, 120, 130 with the
  default SMA window 20 and EMA span 3, the SMA is 120 and the EMA is 122.5. With EMA
  marked for output, \<^verbatim>\<open>print_csv_row\<close> of the top-level \<^verbatim>\<open>analyzer.cpp\<close> prints the SMA, 120,
  in the ema column; the one of \<^verbatim>\<open>src/analyzer.cpp\<close> prints the EMA.
\<close>

theorem toplevel_ema_column_prints_sma:
  "get_indicator
     (Series_update (Series_update (Series_update (Series_update
        (Series_new 20 (span_to_alpha 3) 30) 100 10 ''d'') 110 10 ''d'') 120 10 ''d'')
        130 10 ''d'') EMA = 122.5
   \<and> print_csv_row_toplevel (CLIConfig_default\<lparr>ema_span := 3, output_ema := True\<rparr>)
       \<lparr>timestamp = ''d'', symbol = ''AAPL'', price = 130, volume = 10, is_valid = True\<rparr>
       (Series_update (Series_update (Series_update (Series_update
          (Series_new 20 (span_to_alpha 3) 30) 100 10 ''d'') 110 10 ''d'') 120 10 ''d'')
          130 10 ''d'')
     = [Str ''d'', Str ''AAPL'', Dbl 130, Lng 10, Dbl 120]
   \<and> print_csv_row (CLIConfig_default\<lparr>ema_span := 3, output_ema := True\<rparr>)
       \<lparr>timestamp = ''d'', symbol = ''AAPL'', price = 130, volume = 10, is_valid = True\<rparr>
       (Series_update (Series_update (Series_update (Series_update
          (Series_new 20 (span_to_alpha 3) 30) 100 10 ''d'') 110 10 ''d'') 120 10 ''d'')
          130 10 ''d'')
     = [Str ''d'', Str ''AAPL'', Dbl 130, Lng 10, Dbl 122.5]"
  by (simp add: print_csv_row_toplevel_def print_csv_row_def CLIConfig_default_def
      span_to_alpha_def Series_new_def Series_update_def Series_update_divs_def
      SMAIndicator_new_def SMAIndicator_update_def SMAIndicator_get_value_def accumulate_def
      EMAIndicator_new_def EMAIndicator_update_def EMAIndicator_get_value_def
      size_t_of_int_def Let_def)

subsection \<open>Stream driver\<close>

lemma parse_row1:
  "parse_line libc ''2023-09-15 09:30:00,AAPL,150.00,1000''
    = Inr \<lparr>timestamp = ''2023-09-15 09:30:00'', symbol = ''AAPL'', price = 150,
           volume = 1000, is_valid = True\<rparr>"
  by code_simp

lemma parse_row2:
  "parse_line libc ''2023-09-15 09:30:30,AAPL,150.30,1000''
    = Inr \<lparr>timestamp = ''2023-09-15 09:30:30'', symbol = ''AAPL'', price = 150.30,
           volume = 1000, is_valid = True\<rparr>"
  by code_simp

lemma parse_row3:
  "parse_line libc ''2023-09-15 09:31:00,AAPL,150.60,1000''
    = Inr \<lparr>timestamp = ''2023-09-15 09:31:00'', symbol = ''AAPL'', price = 150.60,
           volume = 1000, is_valid = True\<rparr>"
  by code_simp

text \<open>
  Claim C3. With \<open>sma_window = 2\<close> and SMA marked for output, the three lines of the
  scenario give three rows whose sma column is 0 (seed row: no sub-indicator was
  updated), 150.30 (the window holds 150.30 only) and 150.45 (the mean of 150.30 and
  150.60): the row is printed from the Series state after the row's own update.
\<close>

theorem stream_driver_sma_scenario:
  "process_file libc (CLIConfig_default\<lparr>sma_window := 2, output_sma := True\<rparr>)
     [''2023-09-15 09:30:00,AAPL,150.00,1000'',
      ''2023-09-15 09:30:30,AAPL,150.30,1000'',
      ''2023-09-15 09:31:00,AAPL,150.60,1000'']
   = Inr (''timestamp,symbol,price,volume,sma'',
       [[Str ''2023-09-15 09:30:00'', Str ''AAPL'', Dbl 150, Lng 1000, Dbl 0],
        [Str ''2023-09-15 09:30:30'', Str ''AAPL'', Dbl 150.30, Lng 1000, Dbl 150.30],
        [Str ''2023-09-15 09:31:00'', Str ''AAPL'', Dbl 150.60, Lng 1000, Dbl 150.45]])"
  by (simp add: process_file_def process_line_def parse_row1 parse_row2 parse_row3
      get_or_create_series_def Series_new_def Series_update_def Series_update_divs_def
      SMAIndicator_new_def SMAIndicator_update_def SMAIndicator_get_value_def accumulate_def
      EMAIndicator_new_def EMAIndicator_update_def VolatilityIndicator_new_def
      VolatilityIndicator_update_def VWAPIndicator_new_def VWAPIndicator_update_def
      print_csv_row_def print_csv_header_def CLIConfig_default_def size_t_of_int_def
      wrap_long_def Let_def)

lemma process_line_frame:
  assumes "filter_symbol config \<noteq> []"
    and "process_line L config symbol_data line = Inr (symbol_data', out)"
    and "k \<noteq> filter_symbol config"
  shows "symbol_data' k = symbol_data k"
  using assms
  by (auto simp: process_line_def get_or_create_series_def Let_def
      split: if_splits sum.splits prod.splits option.splits)

lemma process_lines_frame:
  assumes "filter_symbol config \<noteq> []"
    and "process_lines L config symbol_data file_lines = Inr (symbol_data', rows)"
    and "k \<noteq> filter_symbol config"
  shows "symbol_data' k = symbol_data k"
  using assms
proof (induction file_lines arbitrary: symbol_data symbol_data' rows)
  case Nil
  then show ?case by simp
next
  case (Cons line rest)
  from Cons.prems(2) obtain sd1 out rows1
    where one: "process_line L config symbol_data line = Inr (sd1, out)"
      and more: "process_lines L config sd1 rest = Inr (symbol_data', rows1)"
    by (auto split: sum.splits prod.splits)
  have "symbol_data' k = sd1 k"
    using Cons.IH[OF Cons.prems(1) more Cons.prems(3)] .
  also have "sd1 k = symbol_data k"
    using process_line_frame[OF Cons.prems(1) one Cons.prems(3)] .
  finally show ?case .
qed

text \<open>
  Claim C9. With a symbol filter set (for instance \<open>AAPL\<close>), a line that parses to a row
  with another symbol (for instance \<open>MSFT\<close>) prints nothing and leaves the registry as it
  was, so no Series is created for that symbol. Over a whole run, the registry entry of
  every symbol other than the filter is at the end what it was at the start.
\<close>

theorem filtered_row_has_no_effect:
  "(filter_symbol config \<noteq> [] \<and> parse_line L line = Inr row
      \<and> symbol row \<noteq> filter_symbol config \<longrightarrow>
      process_line L config symbol_data line = Inr (symbol_data, None))
   \<and> (filter_symbol config \<noteq> []
      \<and> process_lines L config symbol_data file_lines = Inr (symbol_data', rows)
      \<and> k \<noteq> filter_symbol config \<longrightarrow>
      symbol_data' k = symbol_data k)"
proof -
  have one: "filter_symbol config \<noteq> [] \<and> parse_line L line = Inr row
      \<and> symbol row \<noteq> filter_symbol config \<longrightarrow>
      process_line L config symbol_data line = Inr (symbol_data, None)"
    by (simp add: process_line_def)
  show ?thesis using one process_lines_frame by blast
qed

theorem filtered_row_has_no_effect_witness:
  "filter_symbol (CLIConfig_default\<lparr>filter_symbol := ''AAPL''\<rparr>) = ''AAPL''
   \<and> parse_line libc ''2023-09-15 09:30:00,MSFT,300.50,500''
       = Inr \<lparr>timestamp = ''2023-09-15 09:30:00'', symbol = ''MSFT'', price = 300.5,
              volume = 500, is_valid = True\<rparr>
   \<and> process_line libc (CLIConfig_default\<lparr>filter_symbol := ''AAPL''\<rparr>) Map.empty
        ''2023-09-15 09:30:00,MSFT,300.50,500'' = Inr (Map.empty, None)"
proof -
  have f: "filter_symbol (CLIConfig_default\<lparr>filter_symbol := ''AAPL''\<rparr>) = ''AAPL''"
    by simp
  have r: "parse_line libc ''2023-09-15 09:30:00,MSFT,300.50,500''
       = Inr \<lparr>timestamp = ''2023-09-15 09:30:00'', symbol = ''MSFT'', price = 300.5,
              volume = 500, is_valid = True\<rparr>"
    by code_simp
  show ?thesis
    using f r
      filtered_row_has_no_effect[of "CLIConfig_default\<lparr>filter_symbol := ''AAPL''\<rparr>" libc
        "''2023-09-15 09:30:00,MSFT,300.50,500''"
        "\<lparr>timestamp = ''2023-09-15 09:30:00'', symbol = ''MSFT'', price = 300.5,
          volume = 500, is_valid = True\<rparr>" Map.empty]
    by simp
qed

end
